theory Spec2Isabelle
  imports Main
begin

section \<open>Scope and conventions\<close>

text \<open>
  A model of the session protocol layer of \<^verbatim>\<open>lib-src/emacsclient.c\<close> (GNU Emacs), as it is
  compiled on a POSIX system with sockets in the file system (neither \<^verbatim>\<open>WINDOWSNT\<close> nor
  \<^verbatim>\<open>DARWIN_OS\<close>): the wire codec, the buffered sender, the endpoint resolver, the command
  stream that \<^verbatim>\<open>main\<close> builds, and its receive and dispatch loop.

  \<^item> A C string that is only read is the list of its bytes; reading stops at the first NUL
    or at the end of the list.  A string that is rewritten in place is a buffer (a list of
    bytes) with an index into it, and an access outside the buffer is the error
    \<open>OutOfBounds\<close>.
  \<^item> What the process does to the outside is a list of events, oldest first, in the field
    \<open>trace\<close> of the process state: calls of \<^verbatim>\<open>send_to_emacs\<close>, output on the standard
    streams, \<^verbatim>\<open>stat\<close> and \<^verbatim>\<open>fopen\<close> calls.  The bytes that reach the socket are obtained
    by running the \<open>Send\<close> events through the model of \<^verbatim>\<open>send_to_emacs\<close>.  A send
    that fails ends the process there, so the events that follow it in a trace are those
    of a run in which the send returned.
  \<^item> What the process reads from the outside (environment variables, the file system, the
    account database, the answers of the socket calls) is a record of functions, \<open>world\<close>.
  \<^item> The file-scope variables of the program and the locals of \<^verbatim>\<open>main\<close> are the fields of
    the record \<open>client\<close>.
  \<^item> The end of the process is a value: \<^verbatim>\<open>exit (EXIT_FAILURE)\<close> and \<^verbatim>\<open>fail ()\<close> are
    results of the functions that can call them.

  Not modelled: the option loop of \<^verbatim>\<open>decode_options\<close> (a parameter), what \<^verbatim>\<open>fail\<close> does
  with the alternate editor, \<^verbatim>\<open>start_daemon_and_retry_set_socket\<close>, the signal handlers,
  and the diagnostic that \<^verbatim>\<open>send_to_emacs\<close> prints before it fails.
\<close>

section \<open>The wire codec\<close>

text \<open>
  The one error of the model: a read or a write outside a buffer.
\<close>

datatype error = OutOfBounds

definition NUL :: char where
  "NUL = CHR 0x00"

definition newline :: char where
  "newline = CHR 0x0A"

definition space :: char where
  "space = CHR '' ''"

definition amp :: char where
  "amp = CHR ''&''"

definition c_str :: "string \<Rightarrow> nat \<Rightarrow> string" where
  \<comment> \<open>the C string that starts at index \<open>p\<close> of a buffer\<close>
  "c_str buf p = takeWhile (\<lambda>c. c \<noteq> NUL) (drop p buf)"

subsection \<open>quote_argument (lines 812-852)\<close>

text \<open>
  The loop that fills \<^verbatim>\<open>copy\<close>: a space becomes \<^verbatim>\<open>&_\<close>, a newline \<^verbatim>\<open>&n\<close>, and an
  ampersand, or a hyphen that is the first byte, gets an ampersand in front.  The flag is
  the test \<^verbatim>\<open>p == str\<close>, true for the first byte only.  The loop ends at the NUL.
\<close>

fun quote_loop :: "bool \<Rightarrow> string \<Rightarrow> string" where
  "quote_loop at_str [] = []"
| "quote_loop at_str (c # cs) =
     (if c = NUL then []
      else if c = space then amp # CHR ''_'' # quote_loop False cs
      else if c = newline then amp # CHR ''n'' # quote_loop False cs
      else (if c = amp \<or> (c = CHR ''-'' \<and> at_str) then [amp] else [])
           @ c # quote_loop False cs)"

definition quote_copy :: "string \<Rightarrow> string" where
  \<comment> \<open>the contents of \<^verbatim>\<open>copy\<close> when \<^verbatim>\<open>quote_argument\<close> hands it to \<^verbatim>\<open>send_to_emacs\<close>\<close>
  "quote_copy str = quote_loop True str"

subsection \<open>unquote_argument (lines 855-886)\<close>

definition unescape :: "char \<Rightarrow> char" where
  \<comment> \<open>the assignment to \<^verbatim>\<open>*p\<close> after an ampersand\<close>
  "unescape c =
     (if c = amp then amp
      else if c = CHR ''_'' then space
      else if c = CHR ''n'' then newline
      else if c = CHR ''-'' then CHR ''-''
      else c)"

text \<open>
  The loop of \<^verbatim>\<open>unquote_argument\<close>: \<open>p\<close> is the read pointer and \<open>q\<close> the write
  pointer, both indices into the buffer.  After an ampersand the loop advances \<open>p\<close>
  without looking whether the string has ended there.
\<close>

function unquote_loop :: "string \<Rightarrow> nat \<Rightarrow> nat \<Rightarrow> error + string" where
  "unquote_loop buf p q =
     (if length buf \<le> p \<or> length buf \<le> q then Inl OutOfBounds
      else if buf ! p = NUL then Inr (buf[q := NUL])
      else if buf ! p = amp then
        (if length buf \<le> Suc p then Inl OutOfBounds
         else unquote_loop (buf[Suc p := unescape (buf ! Suc p), q := unescape (buf ! Suc p)])
                (Suc (Suc p)) (Suc q))
      else unquote_loop (buf[q := buf ! p]) (Suc p) (Suc q))"
  by pat_completeness auto
termination
  by (relation "measure (\<lambda>(buf, p, q). length buf - p)") auto

declare unquote_loop.simps [simp del]

text \<open>
  A pointer is \<open>None\<close> (the null pointer) or a buffer with an index.  The function returns
  its argument, whose buffer has been rewritten.
\<close>

definition unquote_argument :: "(string \<times> nat) option \<Rightarrow> error + (string \<times> nat) option" where
  "unquote_argument str =
     (case str of
        None \<Rightarrow> Inr None
      | Some (buf, i) \<Rightarrow>
          (case unquote_loop buf i i of
             Inl e \<Rightarrow> Inl e
           | Inr buf' \<Rightarrow> Inr (Some (buf', i))))"

subsection \<open>The decoding rule\<close>

text \<open>
  The decoding rule of the specification (section 4.1), on the bytes of a string: an
  ampersand consumes the byte after it.  The result is \<open>None\<close> when the last ampersand has
  no byte after it.  The loop above is compared with this function.
\<close>

fun decode :: "string \<Rightarrow> string option" where
  "decode [] = Some []"
| "decode (c # cs) =
     (if c = amp then
        (case cs of
           [] \<Rightarrow> None
         | d # ds \<Rightarrow> map_option ((#) (unescape d)) (decode ds))
      else map_option ((#) c) (decode cs))"

fun dangling_amp :: "string \<Rightarrow> bool" where
  \<comment> \<open>the string ends in an ampersand that is not the second byte of an escape\<close>
  "dangling_amp [] = False"
| "dangling_amp (c # cs) =
     (if c = amp then (case cs of [] \<Rightarrow> True | d # ds \<Rightarrow> dangling_amp ds)
      else dangling_amp cs)"

text \<open>
  The printable characters of the C locale: the bytes from \<^verbatim>\<open>0x20\<close> to \<^verbatim>\<open>0x7E\<close>.
\<close>

definition printable :: "char \<Rightarrow> bool" where
  "printable c = (0x20 \<le> (of_char c :: nat) \<and> (of_char c :: nat) \<le> 0x7E)"

section \<open>The transport: send_to_emacs (lines 770-809)\<close>

text \<open>
  The static array \<^verbatim>\<open>send_buffer\<close> and its fill pointer \<^verbatim>\<open>sblen\<close> are one list, the
  bytes of the array below the fill pointer; the bytes above it are never read.  The
  second field records every buffer handed to \<^verbatim>\<open>send\<close>.
\<close>

definition SEND_BUFFER_SIZE :: nat where
  "SEND_BUFFER_SIZE = 4096"

record sender =
  send_buffer :: string
  writes :: "string list"

text \<open>
  A call returns, or ends the process through \<^verbatim>\<open>fail ()\<close>; the state is kept in both
  cases.
\<close>

datatype 'a outcome = Returned 'a | Failed 'a

fun final :: "'a outcome \<Rightarrow> 'a" where
  "final (Returned s) = s"
| "final (Failed s) = s"

text \<open>
  The answer of \<^verbatim>\<open>send\<close>, given the number of earlier calls and the buffer: the number of
  bytes taken, or a negative number.  POSIX lets it take fewer bytes than offered, never
  more.
\<close>

type_synonym os_send = "nat \<Rightarrow> string \<Rightarrow> int"

text \<open>
  The \<^verbatim>\<open>for\<close> loop over the bytes of \<^verbatim>\<open>data\<close> still to be copied.  It flushes when the
  buffer is full or ends in a newline.  When the socket keeps taking nothing from a full
  buffer the loop never ends, so the function is partial and \<open>None\<close> stands for that.
\<close>

partial_function (option) send_loop :: "os_send \<Rightarrow> sender \<Rightarrow> string \<Rightarrow> sender outcome option" where
  "send_loop os st data =
     (if data = [] then Some (Returned st)
      else
        let part = min (length data) (SEND_BUFFER_SIZE - length (send_buffer st));
            buf = send_buffer st @ take part data
        in if length buf = SEND_BUFFER_SIZE \<or> (0 < length buf \<and> last buf = newline) then
             let sent = os (length (writes st)) buf;
                 st1 = st\<lparr>writes := writes st @ [buf]\<rparr>
             in if sent < 0 then Some (Failed (st1\<lparr>send_buffer := buf\<rparr>))
                else send_loop os (st1\<lparr>send_buffer := drop (nat sent) buf\<rparr>) (drop part data)
           else send_loop os (st\<lparr>send_buffer := buf\<rparr>) (drop part data))"

definition send_to_emacs :: "os_send \<Rightarrow> sender \<Rightarrow> string \<Rightarrow> sender outcome option" where
  "send_to_emacs os st data = send_loop os st (c_str data 0)"

definition quote_argument :: "os_send \<Rightarrow> sender \<Rightarrow> string \<Rightarrow> sender outcome option" where
  "quote_argument os st str = send_to_emacs os st (quote_copy str)"

text \<open>
  A sequence of calls, one after the other, as far as the process lives.
\<close>

fun send_all :: "os_send \<Rightarrow> sender \<Rightarrow> string list \<Rightarrow> sender outcome option" where
  "send_all os st [] = Some (Returned st)"
| "send_all os st (d # ds) =
     (case send_to_emacs os st d of
        None \<Rightarrow> None
      | Some (Failed st') \<Rightarrow> Some (Failed st')
      | Some (Returned st') \<Rightarrow> send_all os st' ds)"

section \<open>The state of the process and its environment\<close>

definition EXIT_SUCCESS :: int where "EXIT_SUCCESS = 0"

definition EXIT_FAILURE :: int where "EXIT_FAILURE = 1"

datatype event =
    Send string
  | Stdout string
  | Stderr string
  | InitSignals
  | KillStop
  | CloseSocket
  | Stat string
  | Fopen string

fun sends :: "event list \<Rightarrow> string list" where
  "sends [] = []"
| "sends (Send d # es) = d # sends es"
| "sends (e # es) = sends es"

fun fopens :: "event list \<Rightarrow> string list" where
  "fopens [] = []"
| "fopens (Fopen p # es) = p # fopens es"
| "fopens (e # es) = fopens es"

fun stats :: "event list \<Rightarrow> string list" where
  "stats [] = []"
| "stats (Stat p # es) = p # stats es"
| "stats (e # es) = stats es"

text \<open>
  The file-scope variables (lines 95-148) and the locals \<^verbatim>\<open>skiplf\<close>, \<^verbatim>\<open>exit_status\<close>
  and \<^verbatim>\<open>string\<close> of \<^verbatim>\<open>main\<close> (here \<open>string_buf\<close>).  The array has \<^verbatim>\<open>BUFSIZ + 1\<close> bytes; the
  value of \<^verbatim>\<open>BUFSIZ\<close> is not fixed by the program, and is the length of the list less
  one.  \<open>stdin\<close> is what remains to be read from standard input.
\<close>

record client =
  progname :: string
  nowait :: bool
  quiet :: bool
  suppress_output :: bool
  eval :: bool
  create_frame :: bool
  display :: "string option"
  alt_display :: "string option"
  parent_id :: "string option"
  tty :: bool
  alternate_editor :: "string option"
  socket_name :: "string option"
  server_file :: "string option"
  tramp_prefix :: "string option"
  emacs_pid :: int
  frame_parameters :: "string option"
  skiplf :: bool
  exit_status :: int
  string_buf :: string
  stdin :: string
  trace :: "event list"

definition BUFSIZ :: "client \<Rightarrow> nat" where
  "BUFSIZ c = length (string_buf c) - 1"

text \<open>
  What the system answers.  \<open>stat\<close> gives the owner of a file or an \<^verbatim>\<open>errno\<close>,
  \<open>getpwnam\<close> the uid of an account, \<open>fopen\<close> the contents of a file; the socket calls
  give \<open>None\<close> for success or an \<^verbatim>\<open>errno\<close>.  \<open>sun_path_size\<close> is
  \<^verbatim>\<open>sizeof server.sun_path\<close>.
\<close>

record world =
  getenv :: "string \<Rightarrow> string option"
  ttyname :: "string option"
  geteuid :: nat
  stat :: "string \<Rightarrow> nat + nat"
  getpwnam :: "string \<Rightarrow> nat option"
  socket_unix :: "nat option"
  connect_unix :: "string \<Rightarrow> nat option"
  fopen :: "string \<Rightarrow> string option"
  socket_inet :: "nat option"
  connect_inet :: "string \<Rightarrow> string \<Rightarrow> nat option"
  inet_addr :: "string \<Rightarrow> nat"
  inet_ntoa :: "nat \<Rightarrow> string"
  strerror :: "nat \<Rightarrow> string"
  sun_path_size :: nat

definition ENOENT :: nat where
  "ENOENT = 2"

definition emit :: "event list \<Rightarrow> client \<Rightarrow> client" where
  "emit es c = c\<lparr>trace := trace c @ es\<rparr>"

text \<open>
  \<^verbatim>\<open>message\<close> (lines 442-470): standard error for an error, standard output otherwise.
\<close>

definition message :: "bool \<Rightarrow> string \<Rightarrow> client \<Rightarrow> client" where
  "message is_error text c = emit [if is_error then Stderr text else Stdout text] c"

text \<open>
  A call of \<^verbatim>\<open>quote_argument\<close> is one call of \<^verbatim>\<open>send_to_emacs\<close>, on the quoted copy.
\<close>

definition quoted :: "string \<Rightarrow> event" where
  "quoted str = Send (quote_copy str)"

definition dquote :: char where
  "dquote = CHR 0x22"

definition tab :: char where
  "tab = CHR 0x09"

subsection \<open>Library functions\<close>

text \<open>
  \<^verbatim>\<open>strprefix\<close> (lines 1062-1066), and the functions of the C library that the program
  uses on strings.
\<close>

definition strprefix :: "string \<Rightarrow> string \<Rightarrow> bool" where
  "strprefix prefix str = (take (length prefix) str = prefix)"

fun strstr :: "string \<Rightarrow> string \<Rightarrow> bool" where
  "strstr [] needle = (needle = [])"
| "strstr (c # cs) needle = (strprefix needle (c # cs) \<or> strstr cs needle)"

definition isdigit :: "char \<Rightarrow> bool" where
  "isdigit c = (48 \<le> (of_char c :: nat) \<and> (of_char c :: nat) \<le> 57)"

text \<open>
  What \<^verbatim>\<open>fgets\<close> takes from a stream when the buffer has room for \<open>n\<close> bytes: up to and
  including the first newline.
\<close>

fun fgets_take :: "nat \<Rightarrow> string \<Rightarrow> string" where
  "fgets_take n [] = []"
| "fgets_take n (c # cs) =
     (if n = 0 then [] else if c = newline then [c] else c # fgets_take (n - 1) cs)"

lemma length_fgets_take: "length (fgets_take n s) \<le> length s"
  by (induction n s rule: fgets_take.induct) auto

text \<open>
  The format \<^verbatim>\<open>%ld\<close> on a uid.
\<close>

definition digit_char :: "nat \<Rightarrow> char" where
  "digit_char d = ''0123456789'' ! d"

fun decimal :: "nat \<Rightarrow> string" where
  "decimal n = (if n < 10 then [digit_char n] else decimal (n div 10) @ [digit_char (n mod 10)])"

declare decimal.simps [simp del]

definition file_name_absolute_p :: "string \<Rightarrow> bool" where
  "file_name_absolute_p filename =
     (case c_str filename 0 of [] \<Rightarrow> False | c # _ \<Rightarrow> c = CHR ''/'')"

section \<open>Options\<close>

text \<open>
  The state when \<^verbatim>\<open>main\<close> starts: the static variables are zero.
\<close>

definition startup :: "string \<Rightarrow> string \<Rightarrow> client" where
  "startup prog buf =
     \<lparr>progname = prog, nowait = False, quiet = False, suppress_output = False,
      eval = False, create_frame = False, display = None, alt_display = None, parent_id = None,
      tty = False, alternate_editor = None, socket_name = None, server_file = None,
      tramp_prefix = None, emacs_pid = 0, frame_parameters = None, skiplf = True,
      exit_status = EXIT_SUCCESS, string_buf = buf, stdin = [], trace = []\<rparr>"

text \<open>
  \<^verbatim>\<open>decode_options\<close> (lines 476-628).  The loop over \<^verbatim>\<open>getopt_long_only\<close> is the
  parameter \<open>getopt_loop\<close>; the identity stands for a command line without options.
  \<open>default_display\<close> is the display that the build assigns to \<^verbatim>\<open>alt_display\<close>
  (\<^verbatim>\<open>ns\<close> or \<^verbatim>\<open>w32\<close>), if any.
\<close>

definition decode_options ::
  "world \<Rightarrow> string option \<Rightarrow> (client \<Rightarrow> client) \<Rightarrow> client \<Rightarrow> client" where
  "decode_options w default_display getopt_loop c =
     (let c0 = getopt_loop (c\<lparr>alternate_editor := getenv w ''ALTERNATE_EDITOR'',
                               tramp_prefix := getenv w ''EMACSCLIENT_TRAMP''\<rparr>);
          c1 = (if create_frame c0 \<and> \<not> tty c0 \<and> display c0 = None
                then c0\<lparr>alt_display := (case default_display of
                                           None \<Rightarrow> alt_display c0
                                         | Some d \<Rightarrow> Some d),
                        display := getenv w ''DISPLAY''\<rparr>
                else c0);
          c2 = (if display c1 = None then c1\<lparr>display := alt_display c1, alt_display := None\<rparr>
                else c1);
          c3 = (case display c2 of
                  None \<Rightarrow> c2
                | Some d \<Rightarrow> if c_str d 0 = [] then c2\<lparr>display := None\<rparr> else c2)
      in if create_frame c3 \<and> display c3 = None then c3\<lparr>tty := True\<rparr> else c3)"

section \<open>The endpoint resolver\<close>

datatype sock = LocalSocket string | TcpSocket string string

text \<open>
  What a resolver function gives: a connected socket, \<^verbatim>\<open>INVALID_SOCKET\<close>, or the end of
  the process through \<^verbatim>\<open>exit (EXIT_FAILURE)\<close> or through \<^verbatim>\<open>fail ()\<close>.
\<close>

datatype resolution = Connected sock | INVALID_SOCKET | ExitFailure | FailCalled

definition AUTH_KEY_LENGTH :: nat where
  "AUTH_KEY_LENGTH = 64"

subsection \<open>set_local_socket (lines 1219-1360)\<close>

text \<open>
  \<^verbatim>\<open>socket_status\<close> (lines 1121-1133) with the value of \<^verbatim>\<open>errno\<close> after the call.
\<close>

definition socket_status :: "world \<Rightarrow> string \<Rightarrow> nat \<Rightarrow> nat \<times> nat" where
  "socket_status w name errno =
     (case stat w name of
        Inl e \<Rightarrow> (2, e)
      | Inr st_uid \<Rightarrow> if st_uid \<noteq> geteuid w then (1, errno) else (0, errno))"

definition socket_path :: "string \<Rightarrow> nat \<Rightarrow> string \<Rightarrow> string" where
  "socket_path tmpdir uid server_name = tmpdir @ ''/emacs'' @ decimal uid @ ''/'' @ server_name"

definition socket_tmpdir :: "world \<Rightarrow> string \<Rightarrow> string option" where
  "socket_tmpdir w server_name =
     (if CHR ''/'' \<notin> set server_name \<and> CHR 0x5C \<notin> set server_name
      then Some (case getenv w ''TMPDIR'' of None \<Rightarrow> ''/tmp'' | Some d \<Rightarrow> d)
      else None)"

definition first_socket_name :: "world \<Rightarrow> string \<Rightarrow> string" where
  "first_socket_name w server_name =
     (case socket_tmpdir w server_name of
        None \<Rightarrow> server_name
      | Some d \<Rightarrow> socket_path d (geteuid w) server_name)"

text \<open>
  The uid on which the second lookup is made (lines 1290-1302): that of \<^verbatim>\<open>LOGNAME\<close>, or
  else of \<^verbatim>\<open>USER\<close>, when the account exists and its uid is not the effective uid.
\<close>

definition login_uid :: "world \<Rightarrow> nat option" where
  "login_uid w =
     (case (case getenv w ''LOGNAME'' of None \<Rightarrow> getenv w ''USER'' | Some u \<Rightarrow> Some u) of
        None \<Rightarrow> None
      | Some user_name \<Rightarrow>
          (case getpwnam w user_name of
             None \<Rightarrow> None
           | Some pw_uid \<Rightarrow> if pw_uid \<noteq> geteuid w then Some pw_uid else None))"

text \<open>
  The \<^verbatim>\<open>switch\<close> on the status and the call of \<^verbatim>\<open>connect\<close> (lines 1331-1359).
\<close>

definition connect_local :: "world \<Rightarrow> string \<Rightarrow> nat \<times> nat \<Rightarrow> client \<Rightarrow> client \<times> resolution" where
  "connect_local w sun_path status c =
     (if fst status = 1 then
        (message True (progname c @ '': Invalid socket owner'' @ [newline]) c, INVALID_SOCKET)
      else if fst status = 2 then
        (message True
           (if snd status = ENOENT
            then progname c @ '': can't find socket; have you started the server?'' @ [newline]
                 @ ''To start the server in Emacs, type '' @ [dquote] @ ''M-x server-start''
                 @ [dquote] @ ''.'' @ [newline]
            else progname c @ '': can't stat '' @ sun_path @ '': '' @ strerror w (snd status)
                 @ [newline]) c,
         INVALID_SOCKET)
      else
        (case connect_unix w sun_path of
           Some e \<Rightarrow>
             (message True (progname c @ '': connect: '' @ strerror w e @ [newline]) c,
              INVALID_SOCKET)
         | None \<Rightarrow> (c, Connected (LocalSocket sun_path))))"

definition set_local_socket :: "world \<Rightarrow> string \<Rightarrow> client \<Rightarrow> client \<times> resolution" where
  "set_local_socket w local_socket_name c =
     (case socket_unix w of
        Some e \<Rightarrow>
          (message True (progname c @ '': socket: '' @ strerror w e @ [newline]) c, INVALID_SOCKET)
      | None \<Rightarrow>
          let server_name = c_str local_socket_name 0;
              tmpdir = socket_tmpdir w server_name;
              name = first_socket_name w server_name
          in if \<not> length name < sun_path_size w then
               (message True (progname c @ '': socket-name '' @ name @ '' too long'' @ [newline]) c,
                FailCalled)
             else
               let c1 = emit [Stat name] c;
                   status = socket_status w name 0
               in (case (if fst status \<noteq> 0 then tmpdir else None) of
                     None \<Rightarrow> connect_local w name status c1
                   | Some d \<Rightarrow>
                       (case login_uid w of
                          None \<Rightarrow> connect_local w name status c1
                        | Some uid \<Rightarrow>
                            let user_socket_name = socket_path d uid server_name
                            in if \<not> length user_socket_name < sun_path_size w then
                                 (message True
                                    (progname c @ '': socket-name '' @ user_socket_name
                                     @ '' too long'' @ [newline]) c1,
                                  ExitFailure)
                               else
                                 connect_local w user_socket_name
                                   (socket_status w user_socket_name (snd status))
                                   (emit [Stat user_socket_name] c1))))"

subsection \<open>get_server_config and set_tcp_socket (lines 941-1058)\<close>

datatype server_config = NoConfig | ConfigExit | Config string string string

definition config_path :: "world \<Rightarrow> string \<Rightarrow> string option" where
  "config_path w config_file =
     (if file_name_absolute_p config_file then Some (c_str config_file 0)
      else (case getenv w ''HOME'' of
              None \<Rightarrow> None
            | Some home \<Rightarrow> Some (home @ ''/.emacs.d/server/'' @ c_str config_file 0)))"

text \<open>
  The first line is read with \<^verbatim>\<open>fgets\<close> into 32 bytes and cut at the colon; the
  authentication string is the 64 bytes after that line.  The host and the port are kept
  as text.
\<close>

definition get_server_config :: "world \<Rightarrow> string \<Rightarrow> client \<Rightarrow> client \<times> server_config" where
  "get_server_config w config_file c =
     (case config_path w config_file of
        None \<Rightarrow> (c, NoConfig)
      | Some p \<Rightarrow>
          (case fopen w p of
             None \<Rightarrow> (emit [Fopen p] c, NoConfig)
           | Some content \<Rightarrow>
               let c1 = emit [Fopen p] c;
                   dotted = c_str (fgets_take 31 content) 0
               in if CHR '':'' \<notin> set dotted then
                    (message True (progname c @ '': invalid configuration info'' @ [newline]) c1,
                     ConfigExit)
                  else
                    let rest = drop (length (fgets_take 31 content)) content
                    in if length rest < AUTH_KEY_LENGTH then
                         (message True
                            (progname c @ '': cannot read authentication info'' @ [newline]) c1,
                          ConfigExit)
                       else
                         (c1, Config (takeWhile (\<lambda>x. x \<noteq> CHR '':'') dotted)
                                (tl (dropWhile (\<lambda>x. x \<noteq> CHR '':'') dotted))
                                (take AUTH_KEY_LENGTH rest))))"

definition set_tcp_socket :: "world \<Rightarrow> string \<Rightarrow> client \<Rightarrow> client \<times> resolution" where
  "set_tcp_socket w local_server_file c =
     (case get_server_config w local_server_file c of
        (c1, NoConfig) \<Rightarrow> (c1, INVALID_SOCKET)
      | (c1, ConfigExit) \<Rightarrow> (c1, ExitFailure)
      | (c1, Config dotted port auth_string) \<Rightarrow>
          let c2 = (if inet_addr w dotted \<noteq> inet_addr w ''127.0.0.1'' \<and> \<not> quiet c
                    then message False
                           (progname c @ '': connected to remote socket at ''
                            @ inet_ntoa w (inet_addr w dotted) @ [newline]) c1
                    else c1)
          in (case socket_inet w of
                Some e \<Rightarrow>
                  (message True (progname c @ '': socket: '' @ strerror w e @ [newline]) c2,
                   INVALID_SOCKET)
              | None \<Rightarrow>
                  (case connect_inet w dotted port of
                     Some e \<Rightarrow>
                       (message True (progname c @ '': connect: '' @ strerror w e @ [newline]) c2,
                        INVALID_SOCKET)
                   | None \<Rightarrow>
                       (emit [Send ''-auth '', Send auth_string, Send '' ''] c2,
                        Connected (TcpSocket dotted port)))))"

subsection \<open>set_socket (lines 1363-1423)\<close>

definition set_socket :: "world \<Rightarrow> bool \<Rightarrow> client \<Rightarrow> client \<times> resolution" where
  "set_socket w no_exit_if_error c =
     (let c0 = c\<lparr>socket_name := (case socket_name c of
                                       None \<Rightarrow> getenv w ''EMACS_SOCKET_NAME''
                                     | Some n \<Rightarrow> Some n)\<rparr>
      in case socket_name c0 of
           Some name \<Rightarrow>
             (case set_local_socket w name c0 of
                (c1, s) \<Rightarrow>
                  if s \<noteq> INVALID_SOCKET \<or> no_exit_if_error then (c1, s)
                  else (message True
                          (progname c @ '': error accessing socket '' @ [dquote] @ name @ [dquote]
                           @ [newline])
                          c1,
                        ExitFailure))
         | None \<Rightarrow>
             (case (case server_file c0 of
                      None \<Rightarrow> getenv w ''EMACS_SERVER_FILE''
                    | Some f \<Rightarrow> Some f) of
                Some local_server_file \<Rightarrow>
                  (case set_tcp_socket w local_server_file c0 of
                     (c1, s) \<Rightarrow>
                       if s \<noteq> INVALID_SOCKET \<or> no_exit_if_error then (c1, s)
                       else (message True
                               (progname c @ '': error accessing server file '' @ [dquote]
                                @ local_server_file @ [dquote] @ [newline]) c1,
                             ExitFailure))
              | None \<Rightarrow>
                  (case set_local_socket w ''server'' c0 of
                     (c1, s) \<Rightarrow>
                       if s \<noteq> INVALID_SOCKET then (c1, s)
                       else
                         (case set_tcp_socket w ''server'' c1 of
                            (c2, s2) \<Rightarrow>
                              if s2 \<noteq> INVALID_SOCKET \<or> no_exit_if_error then (c2, s2)
                              else (message True
                                      (progname c @ '': No socket or alternate editor.  Please use:''
                                       @ [newline, newline, tab] @ ''--socket-name''
                                       @ [newline, tab]
                                       @ ''--server-file      (or environment variable EMACS_SERVER_FILE)''
                                       @ [newline, tab]
                                       @ ''--alternate-editor (or environment variable ALTERNATE_EDITOR)''
                                       @ [newline]) c2,
                                    ExitFailure)))))"

section \<open>The session controller: sending (lines 1706-1852 of main)\<close>

datatype tty_lookup = Tty string string | NoTty | TtyFail string

text \<open>
  \<^verbatim>\<open>find_tty\<close> (lines 1072-1111): the terminal type and name, nothing when
  \<^verbatim>\<open>noabort\<close> is set and one of them is missing, and otherwise a diagnostic followed by
  \<^verbatim>\<open>fail ()\<close>.
\<close>

definition find_tty :: "string \<Rightarrow> world \<Rightarrow> bool \<Rightarrow> tty_lookup" where
  "find_tty prog w noabort =
     (case ttyname w of
        None \<Rightarrow> if noabort then NoTty
                else TtyFail (prog @ '': could not get terminal name'' @ [newline])
      | Some name \<Rightarrow>
          (case getenv w ''TERM'' of
             None \<Rightarrow> if noabort then NoTty
                     else TtyFail (prog @ '': please set the TERM variable to your terminal type''
                                   @ [newline])
           | Some type \<Rightarrow>
               if (case getenv w ''INSIDE_EMACS'' of
                     None \<Rightarrow> False
                   | Some inside_emacs \<Rightarrow> strstr inside_emacs '',term:'' \<and> strprefix ''eterm'' type)
               then if noabort then NoTty
                    else TtyFail (prog @ '': opening a frame in an Emacs term buffer is not supported''
                                  @ [newline])
               else Tty type name))"

definition env_directives :: "string list \<Rightarrow> event list" where
  "env_directives environ = concat (map (\<lambda>e. [Send ''-env '', quoted e, Send '' '']) environ)"

text \<open>
  The directives sent once, before the label \<^verbatim>\<open>retry\<close> (lines 1706-1722).
\<close>

definition send_dir :: "string list \<Rightarrow> string \<Rightarrow> client \<Rightarrow> client" where
  "send_dir environ cwd c =
     emit ((if create_frame c then env_directives environ else [])
           @ [Send ''-dir '']
           @ (case tramp_prefix c of None \<Rightarrow> [] | Some t \<Rightarrow> [quoted t])
           @ [quoted cwd, Send ''/'', Send '' '']) c"

definition position_arg :: "string \<Rightarrow> bool" where
  "position_arg arg =
     (case c_str arg 0 of
        [] \<Rightarrow> False
      | c # rest \<Rightarrow> c = CHR ''+'' \<and> dropWhile (\<lambda>c. isdigit c \<or> c = CHR '':'') rest = [])"

definition arg_directive :: "client \<Rightarrow> string \<Rightarrow> event list" where
  "arg_directive c arg =
     (if eval c then [Send ''-eval '', quoted arg, Send '' '']
      else if position_arg arg then [Send ''-position '', quoted arg, Send '' '']
      else [Send ''-file '']
           @ (case tramp_prefix c of
                None \<Rightarrow> []
              | Some t \<Rightarrow> if file_name_absolute_p arg then [quoted t] else [])
           @ [quoted arg, Send '' ''])"

text \<open>
  The loop that reads expressions from standard input into \<^verbatim>\<open>string\<close> (lines
  1836-1840).
\<close>

function read_expressions :: "client \<Rightarrow> client" where
  "read_expressions c =
     (let line = fgets_take (length (string_buf c) - 2) (stdin c)
      in if line = [] then c
         else read_expressions
                (c\<lparr>string_buf := line @ NUL # drop (Suc (length line)) (string_buf c),
                   stdin := drop (length line) (stdin c),
                   trace := trace c @ [Send ''-eval '', quoted line]\<rparr>))"
  by pat_completeness auto
termination
proof (relation "measure (\<lambda>c. length (stdin c))")
  show "wf (measure (\<lambda>c. length (stdin c)))" by simp
next
  fix c :: client and line
  assume l: "line = fgets_take (length (string_buf c) - 2) (stdin c)" and n: "line \<noteq> []"
  from l have "length line \<le> length (stdin c)" by (simp add: length_fgets_take)
  with n show "(c\<lparr>string_buf := line @ NUL # drop (Suc (length line)) (string_buf c),
                   stdin := drop (length line) (stdin c),
                   trace := trace c @ [Send ''-eval '', quoted line]\<rparr>, c) \<in> measure (\<lambda>c. length (stdin c))"
    by (cases line) auto
qed

declare read_expressions.simps [simp del]

text \<open>
  The code from the label \<^verbatim>\<open>retry\<close> to the wait for an answer (lines 1724-1852), in
  the order of the source: the directives for the frame, the terminal, the arguments, the
  final newline, and the notice on standard output.
\<close>

definition frame_directives :: "client \<Rightarrow> event list" where
  "frame_directives c =
     (if nowait c then [Send ''-nowait ''] else [])
     @ (if \<not> create_frame c then [Send ''-current-frame ''] else [])
     @ (case display c of
          None \<Rightarrow> []
        | Some d \<Rightarrow> [Send ''-display '', quoted d, Send '' ''])
     @ (case parent_id c of
          None \<Rightarrow> []
        | Some i \<Rightarrow> [Send ''-parent-id '', quoted i, Send '' ''])
     @ (case frame_parameters c of
          None \<Rightarrow> []
        | Some f \<Rightarrow> if create_frame c
                    then [Send ''-frame-parameters '', quoted f, Send '' '']
                    else [])"

definition tty_directives :: "tty_lookup \<Rightarrow> client \<Rightarrow> event list" where
  "tty_directives found c =
     (case found of
        Tty tty_type tty_name \<Rightarrow>
          [InitSignals, Send ''-tty '', quoted tty_name, Send '' '', quoted tty_type, Send '' '']
      | _ \<Rightarrow> [])
     @ (if create_frame c \<and> \<not> tty c then [Send ''-window-system ''] else [])"

definition send_arguments :: "string list \<Rightarrow> client \<Rightarrow> client" where
  "send_arguments args c =
     (if args \<noteq> [] then emit (concat (map (arg_directive c) args)) c
      else if eval c then emit [Send '' ''] (read_expressions c)
      else c)"

definition wait_notice :: "client \<Rightarrow> client" where
  "wait_notice c =
     (if \<not> eval c \<and> \<not> tty c \<and> \<not> nowait c \<and> \<not> quiet c
      then (emit [Stdout ''Waiting for Emacs...''] c)\<lparr>skiplf := False\<rparr>
      else c)"

definition attempt :: "world \<Rightarrow> string list \<Rightarrow> client \<Rightarrow> client outcome" where
  "attempt w args c =
     (let c1 = emit (frame_directives c) c;
          found = (if create_frame c \<or> \<not> eval c then find_tty (progname c) w (\<not> tty c)
                   else NoTty)
      in case found of
           TtyFail msg \<Rightarrow> Failed (emit [Stderr msg] c1)
         | _ \<Rightarrow>
           Returned
             (wait_notice
                (emit [Send [newline]]
                   (send_arguments args (emit (tty_directives found c1) c1)))))"


section \<open>The session controller: receiving (lines 1856-1968 of main)\<close>

datatype step = Continue | Retry

text \<open>
  \<^verbatim>\<open>strchr (p, '\n')\<close> on the buffer: the index of the first newline before the NUL,
  nothing when the NUL comes first, and an error when the buffer ends before either.
\<close>

fun strchr_list :: "string \<Rightarrow> nat \<Rightarrow> error + nat option" where
  "strchr_list [] i = Inl OutOfBounds"
| "strchr_list (c # cs) i =
     (if c = newline then Inr (Some i)
      else if c = NUL then Inr None
      else strchr_list cs (Suc i))"

definition strchr_newline :: "string \<Rightarrow> nat \<Rightarrow> error + nat option" where
  "strchr_newline buf p = strchr_list (drop p buf) p"

definition set_skiplf :: "string \<Rightarrow> client \<Rightarrow> client" where
  "set_skiplf str c = (if str \<noteq> [] then c\<lparr>skiplf := (last str = newline)\<rparr> else c)"

definition retry_transition :: "client \<Rightarrow> client" where
  \<comment> \<open>the assignments of the \<^verbatim>\<open>-window-system-unsupported\<close> branch, before \<^verbatim>\<open>goto retry\<close>\<close>
  "retry_transition c =
     (case alt_display c of
        Some d \<Rightarrow> c\<lparr>display := Some d, alt_display := None\<rparr>
      | None \<Rightarrow> c\<lparr>nowait := False, tty := True\<rparr>)"

text \<open>
  The conversion of the \<^verbatim>\<open>long\<close> that \<^verbatim>\<open>strtol\<close> returns to the \<^verbatim>\<open>int\<close> of 32 bits
  \<^verbatim>\<open>emacs_pid\<close> (line 144): the value modulo \<open>2^32\<close>, in the range of \<^verbatim>\<open>int\<close>, which is
  what the compilers of the supported systems do with a value out of that range.
\<close>

definition int_of_long :: "int \<Rightarrow> int" where
  "int_of_long v = (v + 2147483648) mod 4294967296 - 2147483648"

text \<open>
  The body of the loop over the messages of a chunk (lines 1881-1953): the message is the
  C string at index \<open>p\<close> of \<^verbatim>\<open>string\<close>.  \<^verbatim>\<open>unquote_argument\<close> rewrites the buffer in
  place; its argument is never null here, so its loop is called directly.  \<^verbatim>\<open>strtol\<close>
  is a parameter.
\<close>

definition handle_message :: "(string \<Rightarrow> int) \<Rightarrow> client \<Rightarrow> nat \<Rightarrow> error + client \<times> step" where
  "handle_message strtol c p =
     (let msg = c_str (string_buf c) p in
      if strprefix ''-emacs-pid '' msg then
        Inr (c\<lparr>emacs_pid := int_of_long (strtol (drop (length ''-emacs-pid'') msg))\<rparr>, Continue)
      else if strprefix ''-window-system-unsupported '' msg then
        Inr (retry_transition c, Retry)
      else if strprefix ''-print '' msg then
        (if \<not> suppress_output c then
           (case unquote_loop (string_buf c) (p + length ''-print '') (p + length ''-print '') of
              Inl e \<Rightarrow> Inl e
            | Inr buf \<Rightarrow>
                let str = c_str buf (p + length ''-print '')
                in Inr (set_skiplf str
                         (emit [Stdout ((if skiplf c then [] else [newline]) @ str)]
                            (c\<lparr>string_buf := buf\<rparr>)),
                        Continue))
         else Inr (c, Continue))
      else if strprefix ''-print-nonl '' msg then
        (if \<not> suppress_output c then
           (case unquote_loop (string_buf c) (p + length ''-print-nonl '')
                   (p + length ''-print-nonl '') of
              Inl e \<Rightarrow> Inl e
            | Inr buf \<Rightarrow>
                let str = c_str buf (p + length ''-print-nonl '')
                in Inr (set_skiplf str (emit [Stdout str] (c\<lparr>string_buf := buf\<rparr>)),
                        Continue))
         else Inr (c, Continue))
      else if strprefix ''-error '' msg then
        (case unquote_loop (string_buf c) (p + length ''-error '') (p + length ''-error '') of
           Inl e \<Rightarrow> Inl e
         | Inr buf \<Rightarrow>
             let str = c_str buf (p + length ''-error '')
             in Inr ((set_skiplf str
                       (emit ((if \<not> skiplf c then [Stdout [newline]] else [])
                              @ [Stderr (''*ERROR*: '' @ str)])
                          (c\<lparr>string_buf := buf\<rparr>)))\<lparr>exit_status := EXIT_FAILURE\<rparr>,
                     Continue))
      else if strprefix ''-suspend '' msg then
        Inr ((emit ((if \<not> skiplf c then [Stdout [newline]] else []) @ [KillStop]) c)
               \<lparr>skiplf := True\<rparr>,
             Continue)
      else
        Inr ((emit [Stdout ((if skiplf c then [] else [newline])
                            @ ''*ERROR*: Unknown message: '' @ msg @ [newline])] c)
               \<lparr>skiplf := True\<rparr>,
             Continue))"

text \<open>
  The loop over the messages ends because every message moves the index forward in a
  buffer whose length does not change.
\<close>

lemma length_unquote_loop: "unquote_loop buf p q = Inr buf' \<Longrightarrow> length buf' = length buf"
proof (induction buf p q rule: unquote_loop.induct)
  case (1 buf p q)
  note eq = "1.prems" [unfolded unquote_loop.simps [of buf p q]]
  from eq have inb: "\<not> (length buf \<le> p \<or> length buf \<le> q)"
    by (auto split: if_splits)
  show ?case
  proof (cases "buf ! p = NUL")
    case True
    with eq inb show ?thesis by auto
  next
    case False
    show ?thesis
    proof (cases "buf ! p = amp")
      case True
      with eq inb False have l: "\<not> length buf \<le> Suc p"
        by (auto split: if_splits)
      with eq inb False True
      have "unquote_loop (buf[Suc p := unescape (buf ! Suc p), q := unescape (buf ! Suc p)])
              (Suc (Suc p)) (Suc q) = Inr buf'"
        by simp
      from "1.IH"(1) [OF inb False True l this] show ?thesis by simp
    next
      case nonamp: False
      with eq inb False
      have "unquote_loop (buf[q := buf ! p]) (Suc p) (Suc q) = Inr buf'"
        by simp
      from "1.IH"(2) [OF inb False nonamp this] show ?thesis by simp
    qed
  qed
qed

lemma length_handle_message:
  "handle_message strtol c p = Inr (c', s) \<Longrightarrow> length (string_buf c') = length (string_buf c)"
  by (auto simp: handle_message_def Let_def set_skiplf_def emit_def retry_transition_def
           split: if_splits sum.splits option.splits dest: length_unquote_loop)

lemma strchr_list_bounds:
  "strchr_list xs i = Inr (Some k) \<Longrightarrow> i \<le> k \<and> k < i + length xs"
  by (induction xs arbitrary: i) (fastforce split: if_splits)+

lemma strchr_newline_bounds:
  "strchr_newline buf p = Inr (Some k) \<Longrightarrow> p \<le> k \<and> k < length buf"
  by (cases "p \<le> length buf") (auto simp: strchr_newline_def dest: strchr_list_bounds)

text \<open>
  The loop over the newline-terminated messages of a chunk (lines 1874-1954).  It cuts the
  message at its newline, handles it, and goes on after the newline, unless the message
  asked for a retry or no newline was found.
\<close>

function dispatch_loop :: "(string \<Rightarrow> int) \<Rightarrow> client \<Rightarrow> nat \<Rightarrow> error + client \<times> step" where
  "dispatch_loop strtol c p =
     (if length (string_buf c) \<le> p then Inl OutOfBounds
      else if string_buf c ! p = NUL then Inr (c, Continue)
      else
        (case strchr_newline (string_buf c) p of
           Inl e \<Rightarrow> Inl e
         | Inr None \<Rightarrow> handle_message strtol c p
         | Inr (Some k) \<Rightarrow>
             (case handle_message strtol (c\<lparr>string_buf := (string_buf c)[k := NUL]\<rparr>) p of
                Inl e \<Rightarrow> Inl e
              | Inr (c', Retry) \<Rightarrow> Inr (c', Retry)
              | Inr (c', Continue) \<Rightarrow> dispatch_loop strtol c' (Suc k))))"
  by pat_completeness auto
termination
proof (relation "measure (\<lambda>(strtol, c, p). length (string_buf c) - p)")
  show "wf (measure (\<lambda>(strtol, c, p). length (string_buf c) - p))" by simp
next
  fix strtol :: "string \<Rightarrow> int" and c :: client and p :: nat and x2 x2a x2b x1 y
  assume a: "\<not> length (string_buf c) \<le> p"
    and s: "strchr_newline (string_buf c) p = Inr x2"
    and "x2 = Some x2a"
    and h: "handle_message strtol (c\<lparr>string_buf := (string_buf c)[x2a := NUL]\<rparr>) p = Inr x2b"
    and "(x1, y) = x2b"
  show "((strtol, x1, Suc x2a), strtol, c, p) \<in> measure (\<lambda>(strtol, c, p). length (string_buf c) - p)"
  proof -
    from s \<open>x2 = Some x2a\<close> have k: "p \<le> x2a \<and> x2a < length (string_buf c)"
      by (simp add: strchr_newline_bounds)
    from h \<open>(x1, y) = x2b\<close> have "length (string_buf x1) = length (string_buf c)"
      using length_handle_message [of strtol "c\<lparr>string_buf := (string_buf c)[x2a := NUL]\<rparr>" p x1 y]
      by simp
    with k have "length (string_buf x1) - Suc x2a < length (string_buf c) - p"
      by arith
    then show ?thesis by simp
  qed
qed

declare dispatch_loop.simps [simp del]

text \<open>
  An answer of \<^verbatim>\<open>recv\<close>: bytes (none at the end of the stream), \<^verbatim>\<open>EINTR\<close>, or another
  error.  \<^verbatim>\<open>recv\<close> is asked for \<^verbatim>\<open>BUFSIZ\<close> bytes, so an answer is cut to that length.
  When the list of answers is used up the stream has ended.
\<close>

datatype recv_result = Received string | Interrupted | RecvError

definition finish :: "bool \<Rightarrow> client \<Rightarrow> client" where
  "finish recv_failed c =
     (let c1 = emit ((if \<not> skiplf c then [Stdout [newline]] else []) @ [CloseSocket]) c
      in if recv_failed then c1\<lparr>exit_status := EXIT_FAILURE\<rparr> else c1)"

definition recv_store :: "string \<Rightarrow> client \<Rightarrow> client" where
  "recv_store data c =
     c\<lparr>string_buf := (data @ drop (length data) (string_buf c))[length data := NUL]\<rparr>"

text \<open>
  The \<^verbatim>\<open>while\<close> loop of \<^verbatim>\<open>main\<close> (lines 1857-1955) with what follows it.  On a retry
  the control goes back to the label \<^verbatim>\<open>retry\<close>: \<open>attempt\<close> runs again and the loop is
  entered anew.
\<close>

fun recv_loop ::
  "world \<Rightarrow> (string \<Rightarrow> int) \<Rightarrow> string list \<Rightarrow> client \<Rightarrow> recv_result list
     \<Rightarrow> error + client outcome" where
  "recv_loop w strtol args c [] = Inr (Returned (finish False c))"
| "recv_loop w strtol args c (r # net) =
     (if exit_status c \<noteq> EXIT_SUCCESS then Inr (Returned (finish False c))
      else
        (case r of
           Interrupted \<Rightarrow> recv_loop w strtol args c net
         | RecvError \<Rightarrow> Inr (Returned (finish True c))
         | Received d \<Rightarrow>
             let data = take (BUFSIZ c) d
             in if data = [] then Inr (Returned (finish False c))
                else
                  (case dispatch_loop strtol (recv_store data c) 0 of
                     Inl e \<Rightarrow> Inl e
                   | Inr (c', Retry) \<Rightarrow>
                       (case attempt w args c' of
                          Failed c'' \<Rightarrow> Inr (Failed c'')
                        | Returned c'' \<Rightarrow> recv_loop w strtol args c'' net)
                   | Inr (c', Continue) \<Rightarrow> recv_loop w strtol args c' net)))"

text \<open>
  \<^verbatim>\<open>main\<close> from line 1706 on, once the socket is connected and the working directory
  known.
\<close>

definition session ::
  "world \<Rightarrow> (string \<Rightarrow> int) \<Rightarrow> string list \<Rightarrow> string \<Rightarrow> string list \<Rightarrow> client
     \<Rightarrow> recv_result list \<Rightarrow> error + client outcome" where
  "session w strtol environ cwd args c net =
     (case attempt w args (send_dir environ cwd c) of
        Failed c' \<Rightarrow> Inr (Failed c')
      | Returned c' \<Rightarrow> recv_loop w strtol args c' net)"


text \<open>
  What a run printed, and its exit status.
\<close>

fun printed :: "event list \<Rightarrow> event list" where
  "printed [] = []"
| "printed (Stdout s # es) = Stdout s # printed es"
| "printed (Stderr s # es) = Stderr s # printed es"
| "printed (e # es) = printed es"

definition report :: "error + client outcome \<Rightarrow> event list \<times> int" where
  "report r =
     (case r of
        Inl e \<Rightarrow> ([], EXIT_FAILURE)
      | Inr out \<Rightarrow> (printed (trace (final out)), exit_status (final out)))"

section \<open>States and event lists named in the properties\<close>

text \<open>
  The state after the branch for \<^verbatim>\<open>-error\<close> (lines 1927-1937), when the buffer has become
  \<open>buf\<close> and the decoded text is \<open>str\<close>.
\<close>

definition error_result :: "string \<Rightarrow> string \<Rightarrow> client \<Rightarrow> client" where
  "error_result buf str c =
     (set_skiplf str
        (emit ((if \<not> skiplf c then [Stdout [newline]] else []) @ [Stderr (''*ERROR*: '' @ str)])
           (c\<lparr>string_buf := buf\<rparr>)))\<lparr>exit_status := EXIT_FAILURE\<rparr>"



section \<open>Inputs for the examples\<close>

text \<open>
  Environments and states at which the theorems below are instantiated.
\<close>

definition no_env :: "string \<Rightarrow> string option" where
  "no_env var = None"

definition send_everything :: os_send where
  "send_everything n buf = int (length buf)"

definition no_stat :: "string \<Rightarrow> nat + nat" where
  "no_stat path = Inl ENOENT"

definition no_user :: "string \<Rightarrow> nat option" where
  "no_user name = None"

definition no_connect :: "string \<Rightarrow> nat option" where
  "no_connect path = Some 111"

definition no_connect_inet :: "string \<Rightarrow> string \<Rightarrow> nat option" where
  "no_connect_inet host port = Some 111"

definition no_inet_addr :: "string \<Rightarrow> nat" where
  "no_inet_addr host = 0"

definition no_text :: "nat \<Rightarrow> string" where
  "no_text n = []"

definition bare_world :: world where
  "bare_world =
     \<lparr>getenv = no_env, ttyname = None, geteuid = 1000, stat = no_stat, getpwnam = no_user,
      socket_unix = None, connect_unix = no_connect, fopen = no_env, socket_inet = None,
      connect_inet = no_connect_inet, inet_addr = no_inet_addr, inet_ntoa = no_text,
      strerror = no_text, sun_path_size = 108\<rparr>"

definition strtol_zero :: "string \<Rightarrow> int" where
  "strtol_zero s = 0"

definition home_env :: "string \<Rightarrow> string option" where
  "home_env var = (if var = ''HOME'' then Some ''/home/u'' else None)"

definition server_files :: "string \<Rightarrow> string option" where
  "server_files path =
     (if path = ''/home/u/.emacs.d/server/server''
      then Some (''127.0.0.1:4242 77'' @ [newline] @ replicate 64 (CHR ''k''))
      else None)"

definition accept_inet :: "string \<Rightarrow> string \<Rightarrow> nat option" where
  "accept_inet host port = None"

definition tcp_world :: world where
  "tcp_world = bare_world\<lparr>getenv := home_env, fopen := server_files, connect_inet := accept_inet\<rparr>"

definition both_configured :: client where
  "both_configured =
     (startup ''emacsclient'' (replicate 65 NUL))
       \<lparr>socket_name := Some ''work'', server_file := Some ''server''\<rparr>"

definition no_file_world :: world where
  "no_file_world = bare_world\<lparr>getenv := home_env\<rparr>"

definition garbled_files :: "string \<Rightarrow> string option" where
  "garbled_files path =
     (if path = ''/home/u/.emacs.d/server/server'' then Some (''localhost 4242'' @ [newline])
      else None)"

definition short_files :: "string \<Rightarrow> string option" where
  "short_files path =
     (if path = ''/home/u/.emacs.d/server/server''
      then Some (''127.0.0.1:4242 77'' @ [newline] @ replicate 63 (CHR ''k''))
      else None)"

definition logname_env :: "string \<Rightarrow> string option" where
  "logname_env var = (if var = ''LOGNAME'' then Some ''alice'' else None)"

definition alice_user :: "string \<Rightarrow> nat option" where
  "alice_user name = (if name = ''alice'' then Some 1001 else None)"

definition alice_stat :: "string \<Rightarrow> nat + nat" where
  "alice_stat path = (if path = ''/run/emacs/server'' then Inr 1001 else Inl ENOENT)"

definition su_world :: world where
  "su_world = bare_world\<lparr>getenv := logname_env, getpwnam := alice_user, stat := alice_stat\<rparr>"





definition server_file_only :: client where
  "server_file_only = (startup ''emacsclient'' (replicate 65 NUL))\<lparr>server_file := Some ''server''\<rparr>"


section \<open>Properties of the wire codec\<close>

lemma amp_not_NUL: "amp \<noteq> NUL"
  by (simp add: amp_def NUL_def)

lemma decode_None_iff: "decode s = None \<longleftrightarrow> dangling_amp s"
  by (induction s rule: decode.induct) (auto split: list.splits)

lemma unescape_NUL_iff: "unescape d = NUL \<longleftrightarrow> d = NUL"
  by (auto simp: unescape_def NUL_def amp_def space_def newline_def)

lemma decode_no_NUL: "decode s = Some r \<Longrightarrow> NUL \<notin> set s \<Longrightarrow> NUL \<notin> set r"
proof (induction s arbitrary: r rule: decode.induct)
  case 1
  then show ?case by simp
next
  case (2 c cs)
  show ?case
  proof (cases "c = amp")
    case True
    with "2.prems" obtain d ds r' where cs: "cs = d # ds" and r': "decode ds = Some r'"
      and r: "r = unescape d # r'"
      by (auto split: list.splits)
    from "2.IH"(1) [OF True cs r'] "2.prems" cs have "NUL \<notin> set r'" by simp
    moreover from "2.prems" cs have "unescape d \<noteq> NUL" by (auto simp: unescape_NUL_iff)
    ultimately show ?thesis using r by auto
  next
    case False
    with "2.prems" obtain r' where r': "decode cs = Some r'" and r: "r = c # r'"
      by auto
    from "2.IH"(2) [OF False r'] "2.prems" have "NUL \<notin> set r'" by simp
    then show ?thesis using r "2.prems" by auto
  qed
qed

lemma quote_loop_no_NUL: "NUL \<notin> set (quote_loop b s)"
  by (induction s arbitrary: b) (auto simp: NUL_def amp_def)

lemma quote_loop_no_space: "space \<notin> set (quote_loop b s)"
  by (induction s arbitrary: b) (auto simp: space_def newline_def amp_def)

lemma quote_loop_no_newline: "newline \<notin> set (quote_loop b s)"
  by (induction s arbitrary: b) (auto simp: space_def newline_def amp_def)

lemma decode_quote_loop: "NUL \<notin> set s \<Longrightarrow> decode (quote_loop b s) = Some s"
proof (induction s arbitrary: b)
  case Nil
  show ?case by simp
next
  case (Cons c cs)
  then have ih: "decode (quote_loop False cs) = Some cs" by simp
  show ?case
    using ih Cons.prems
    by (auto simp: unescape_def amp_def space_def newline_def NUL_def)
qed

text \<open>
  The loop of \<^verbatim>\<open>unquote_argument\<close> computes \<open>decode\<close>: on a buffer that holds a
  NUL-terminated string at \<open>p\<close>, with the write pointer not ahead of the read pointer,
  it leaves the decoded string at \<open>q\<close> and does not touch what follows the terminator;
  and it runs out of the buffer when \<open>decode\<close> fails and the buffer ends with the string.
\<close>

lemma drop_nth_head:
  assumes "drop p buf = c # cs"
  shows "p < length buf" and "buf ! p = c" and "drop (Suc p) buf = cs"
proof -
  show lt: "p < length buf"
    using assms by (cases "p < length buf") auto
  from Cons_nth_drop_Suc [OF lt] assms show "buf ! p = c" and "drop (Suc p) buf = cs"
    by auto
qed

lemma unquote_loop_plain:
  "p < length buf \<Longrightarrow> q \<le> p \<Longrightarrow> buf ! p \<noteq> NUL \<Longrightarrow> buf ! p \<noteq> amp \<Longrightarrow>
   unquote_loop buf p q = unquote_loop (buf[q := buf ! p]) (Suc p) (Suc q)"
  by (subst unquote_loop.simps) simp

lemma unquote_loop_escape:
  "Suc p < length buf \<Longrightarrow> q \<le> p \<Longrightarrow> buf ! p = amp \<Longrightarrow>
   unquote_loop buf p q =
     unquote_loop (buf[Suc p := unescape (buf ! Suc p), q := unescape (buf ! Suc p)])
       (Suc (Suc p)) (Suc q)"
  by (subst unquote_loop.simps) (simp add: amp_not_NUL)

lemma unquote_loop_end:
  "p < length buf \<Longrightarrow> q \<le> p \<Longrightarrow> buf ! p = NUL \<Longrightarrow> unquote_loop buf p q = Inr (buf[q := NUL])"
  by (subst unquote_loop.simps) simp

lemma unquote_loop_past:
  "length buf \<le> p \<Longrightarrow> unquote_loop buf p q = Inl OutOfBounds"
  by (subst unquote_loop.simps) simp

lemma take_Suc_drop_Cons:
  "q < length b \<Longrightarrow> b ! q = x \<Longrightarrow> take n (drop (Suc q) b) = xs \<Longrightarrow>
   take (Suc n) (drop q b) = x # xs"
  by (metis Cons_nth_drop_Suc take_Suc_Cons)

lemma unquote_loop_decode:
  "NUL \<notin> set s \<Longrightarrow> q \<le> p \<Longrightarrow> drop p buf = s @ NUL # rest \<Longrightarrow> decode s = Some r \<Longrightarrow>
   \<exists>buf'. unquote_loop buf p q = Inr buf' \<and> length buf' = length buf \<and> take q buf' = take q buf
      \<and> take (Suc (length r)) (drop q buf') = r @ [NUL]
      \<and> drop (Suc (p + length s)) buf' = rest"
proof (induction s arbitrary: buf p q r rule: decode.induct)
  case 1
  from drop_nth_head [of p buf NUL rest] "1.prems"
  have h: "p < length buf" "buf ! p = NUL" "drop (Suc p) buf = rest" by auto
  with "1.prems" show ?case
    by (simp add: unquote_loop_end take_Suc_conv_app_nth)
next
  case (2 c cs)
  from "2.prems" have d0: "drop p buf = c # (cs @ NUL # rest)" by simp
  note h = drop_nth_head [OF d0]
  from "2.prems" have cN: "c \<noteq> NUL" and csN: "NUL \<notin> set cs" by auto
  show ?case
  proof (cases "c = amp")
    case False
    with "2.prems" obtain r' where r': "decode cs = Some r'" and r: "r = c # r'"
      by auto
    let ?b = "buf[q := c]"
    have d1: "drop (Suc p) ?b = cs @ NUL # rest"
      using h "2.prems"(2) by simp
    from "2.IH"(2) [OF False csN _ d1 r', of "Suc q"] "2.prems"(2)
    obtain buf' where b: "unquote_loop ?b (Suc p) (Suc q) = Inr buf'"
      "length buf' = length ?b" "take (Suc q) buf' = take (Suc q) ?b"
      "take (Suc (length r')) (drop (Suc q) buf') = r' @ [NUL]"
      "drop (Suc (Suc p + length cs)) buf' = rest"
      by auto
    have ql: "q < length buf" using h "2.prems"(2) by simp
    have e: "unquote_loop buf p q = Inr buf'"
      using unquote_loop_plain [of p buf q] h "2.prems"(2) cN False b(1) by simp
    have tq: "take q buf' = take q buf \<and> buf' ! q = c"
      using b(2,3) ql by (auto simp: take_Suc_conv_app_nth)
    have "take (Suc (length r)) (drop q buf') = r @ [NUL]"
      using take_Suc_drop_Cons [of q buf' c "Suc (length r')" "r' @ [NUL]"] tq b(2,4) ql r
      by simp
    then show ?thesis using e b(2,5) tq by simp
  next
    case True
    with "2.prems" obtain d ds r' where cs: "cs = d # ds" and r': "decode ds = Some r'"
      and r: "r = unescape d # r'"
      by (auto split: list.splits)
    from h(3) cs have d1: "drop (Suc p) buf = d # (ds @ NUL # rest)" by simp
    note h1 = drop_nth_head [OF d1]
    let ?b = "buf[Suc p := unescape d, q := unescape d]"
    have d2: "drop (Suc (Suc p)) ?b = ds @ NUL # rest"
      using h1 "2.prems"(2) by simp
    from csN cs have dsN: "NUL \<notin> set ds" by simp
    from "2.IH"(1) [OF True cs dsN _ d2 r', of "Suc q"] "2.prems"(2)
    obtain buf' where b: "unquote_loop ?b (Suc (Suc p)) (Suc q) = Inr buf'"
      "length buf' = length ?b" "take (Suc q) buf' = take (Suc q) ?b"
      "take (Suc (length r')) (drop (Suc q) buf') = r' @ [NUL]"
      "drop (Suc (Suc (Suc p) + length ds)) buf' = rest"
      by auto
    have ql: "q < length buf" using h "2.prems"(2) by simp
    have e: "unquote_loop buf p q = Inr buf'"
      using unquote_loop_escape [of p buf q] h h1 "2.prems"(2) True b(1) by simp
    have tq: "take q buf' = take q buf \<and> buf' ! q = unescape d"
      using b(2,3) ql "2.prems"(2) by (auto simp: take_Suc_conv_app_nth)
    have "take (Suc (length r)) (drop q buf') = r @ [NUL]"
      using take_Suc_drop_Cons [of q buf' "unescape d" "Suc (length r')" "r' @ [NUL]"] tq b(2,4) ql r
      by simp
    then show ?thesis using e b(2,5) tq cs by simp
  qed
qed

lemma unquote_loop_dangling:
  "NUL \<notin> set s \<Longrightarrow> q \<le> p \<Longrightarrow> drop p buf = s @ [NUL] \<Longrightarrow> decode s = None \<Longrightarrow>
   unquote_loop buf p q = Inl OutOfBounds"
proof (induction s arbitrary: buf p q rule: decode.induct)
  case 1
  then show ?case by simp
next
  case (2 c cs)
  from "2.prems" have d0: "drop p buf = c # (cs @ [NUL])" by simp
  note h = drop_nth_head [OF d0]
  from "2.prems" have cN: "c \<noteq> NUL" and csN: "NUL \<notin> set cs" by auto
  show ?case
  proof (cases "c = amp")
    case False
    with "2.prems" have r': "decode cs = None" by auto
    let ?b = "buf[q := c]"
    have d1: "drop (Suc p) ?b = cs @ [NUL]"
      using h "2.prems"(2) by simp
    from "2.IH"(2) [OF False csN _ d1 r', of "Suc q"] "2.prems"(2)
    have "unquote_loop ?b (Suc p) (Suc q) = Inl OutOfBounds" by simp
    then show ?thesis
      using unquote_loop_plain [of p buf q] h "2.prems"(2) cN False by simp
  next
    case True
    show ?thesis
    proof (cases cs)
      case Nil
      with h have l: "length buf = Suc (Suc p)" and n: "buf ! Suc p = NUL"
        using d0 by (auto dest: arg_cong [where f = length] simp: nth_via_drop)
      show ?thesis
        using unquote_loop_escape [of p buf q] h(2) l True "2.prems"(2)
        by (simp add: unquote_loop_past)
    next
      case (Cons d ds)
      with True "2.prems" have r': "decode ds = None" by auto
      from h(3) Cons have d1: "drop (Suc p) buf = d # (ds @ [NUL])" by simp
      note h1 = drop_nth_head [OF d1]
      let ?b = "buf[Suc p := unescape d, q := unescape d]"
      have d2: "drop (Suc (Suc p)) ?b = ds @ [NUL]"
        using h1 "2.prems"(2) by simp
      from csN Cons have dsN: "NUL \<notin> set ds" by simp
      from "2.IH"(1) [OF True Cons dsN _ d2 r', of "Suc q"] "2.prems"(2)
      have "unquote_loop ?b (Suc (Suc p)) (Suc q) = Inl OutOfBounds" by simp
      then show ?thesis
        using unquote_loop_escape [of p buf q] h h1 "2.prems"(2) True by simp
    qed
  qed
qed

lemma takeWhile_prefix_NUL:
  assumes "take (Suc (length r)) xs = r @ [NUL]" and "NUL \<notin> set r"
  shows "takeWhile (\<lambda>c. c \<noteq> NUL) xs = r"
proof -
  have "xs = (r @ [NUL]) @ drop (Suc (length r)) xs"
    using append_take_drop_id [of "Suc (length r)" xs] assms(1) by simp
  then obtain tl where "xs = r @ NUL # tl" by simp
  with assms(2) show ?thesis by (auto simp: takeWhile_tail)
qed

lemma c_str_prefix:
  "take (Suc (length r)) buf = r @ [NUL] \<Longrightarrow> NUL \<notin> set r \<Longrightarrow> c_str buf 0 = r"
proof -
  assume t: "take (Suc (length r)) buf = r @ [NUL]" and n: "NUL \<notin> set r"
  have "buf = (r @ [NUL]) @ drop (Suc (length r)) buf"
    using append_take_drop_id [of "Suc (length r)" buf] t by simp
  then obtain tl where "buf = r @ NUL # tl" by simp
  with n show ?thesis by (auto simp: c_str_def takeWhile_tail)
qed

lemma c_str_no_NUL: "NUL \<notin> set s \<Longrightarrow> c_str s 0 = s"
  by (auto simp: c_str_def takeWhile_eq_all_conv)

lemma c_str_at:
  "NUL \<notin> set s \<Longrightarrow> c_str (pre @ s @ NUL # rest) (length pre) = s"
  by (auto simp: c_str_def takeWhile_tail)

lemma wire_text_no_NUL:
  "\<forall>c\<in>set s. printable c \<or> c = space \<or> c = newline \<Longrightarrow> NUL \<notin> set s"
  by (auto simp: printable_def NUL_def space_def newline_def)

text \<open>
  The predicate \<open>dangling_amp\<close> follows the scan of the decoder.  It says the same as
  counting: the string ends in an odd number of ampersands.
\<close>

lemma takeWhile_rev_all: "\<forall>x\<in>set xs. P x \<Longrightarrow> takeWhile P (rev xs) = rev xs"
  by (simp add: takeWhile_eq_all_conv)

lemma dangling_amp_parity:
  "dangling_amp s \<longleftrightarrow> odd (length (takeWhile (\<lambda>c. c = amp) (rev s)))"
  by (induction s rule: dangling_amp.induct)
     (auto simp: takeWhile_append takeWhile_rev_all split: list.splits)

text \<open>
  Claim C5.  For every byte string \<open>s\<close> of printable characters, spaces and newlines,
  decoding the encoding of \<open>s\<close> gives \<open>s\<close> back: \<^verbatim>\<open>unquote_argument\<close>, run in place on
  the NUL-terminated text that \<^verbatim>\<open>quote_argument\<close> builds, returns without leaving the
  buffer, and the C string it leaves at the start of the buffer is \<open>s\<close>.  The empty
  string is included, and whatever follows the terminator in the buffer plays no role.
\<close>

theorem unquote_quote_roundtrip:
  assumes "\<forall>c\<in>set s. printable c \<or> c = space \<or> c = newline"
  shows "\<exists>buf'. unquote_argument (Some (quote_copy s @ NUL # rest, 0)) = Inr (Some (buf', 0))
           \<and> c_str buf' 0 = s"
proof -
  from assms have n: "NUL \<notin> set s" by (rule wire_text_no_NUL)
  have "drop 0 (quote_copy s @ NUL # rest) = quote_copy s @ NUL # rest" by simp
  from unquote_loop_decode [OF quote_loop_no_NUL _ this [unfolded quote_copy_def] decode_quote_loop [OF n], of 0]
  obtain buf' where b: "unquote_loop (quote_copy s @ NUL # rest) 0 0 = Inr buf'"
    "take (Suc (length s)) (drop 0 buf') = s @ [NUL]"
    by (auto simp: quote_copy_def)
  from b(2) n have "c_str buf' 0 = s" by (simp add: c_str_prefix)
  with b(1) show ?thesis by (simp add: unquote_argument_def)
qed

theorem unquote_quote_roundtrip_witness:
  "\<exists>buf'. unquote_argument (Some (quote_copy ''-a b&c'' @ NUL # [], 0)) = Inr (Some (buf', 0))
           \<and> c_str buf' 0 = ''-a b&c''"
  using unquote_quote_roundtrip [of "''-a b&c''" "[]"]
  by (simp add: printable_def space_def newline_def)

text \<open>
  Claim C10.  For every input string, the text that \<^verbatim>\<open>quote_argument\<close> builds holds no
  space and no newline, so a quoted argument is one token of the space-delimited,
  newline-terminated protocol.
\<close>

theorem quote_copy_one_token:
  "space \<notin> set (quote_copy s) \<and> newline \<notin> set (quote_copy s)"
proof -
  have "space \<notin> set (quote_loop True s)"
    by (rule quote_loop_no_space)
  moreover have "newline \<notin> set (quote_loop True s)"
    by (rule quote_loop_no_newline)
  ultimately show ?thesis
    by (simp add: quote_copy_def)
qed

text \<open>
  Claim C9.  \<^verbatim>\<open>unquote_argument\<close> is total here (its loop is a \<^theory_text>\<open>function\<close> with a
  termination proof).  On a NUL-terminated string that does not end in an unescaped
  ampersand it stays inside the buffer and leaves the decoded text.  On a string whose last
  byte is an unescaped ampersand it takes the terminating NUL as the byte of the escape,
  moves past it and reads outside the string: the result is \<open>OutOfBounds\<close>.
\<close>

theorem unquote_argument_bounds:
  assumes "NUL \<notin> set s"
  shows "(dangling_amp s \<longrightarrow> unquote_argument (Some (s @ [NUL], 0)) = Inl OutOfBounds)
       \<and> (\<not> dangling_amp s \<longrightarrow>
            (\<exists>buf'. unquote_argument (Some (s @ [NUL], 0)) = Inr (Some (buf', 0))
               \<and> length buf' = length s + 1 \<and> decode s = Some (c_str buf' 0)))"
proof (intro conjI impI)
  assume "dangling_amp s"
  then have "decode s = None" by (simp add: decode_None_iff)
  from unquote_loop_dangling [OF assms _ _ this, of 0 0 "s @ [NUL]"]
  show "unquote_argument (Some (s @ [NUL], 0)) = Inl OutOfBounds"
    by (simp add: unquote_argument_def)
next
  assume "\<not> dangling_amp s"
  then obtain r where r: "decode s = Some r"
    using decode_None_iff [of s] by (cases "decode s") auto
  from unquote_loop_decode [OF assms _ _ r, of 0 0 "s @ [NUL]" "[]"]
  obtain buf' where b: "unquote_loop (s @ [NUL]) 0 0 = Inr buf'"
    "length buf' = length (s @ [NUL])"
    "take (Suc (length r)) (drop 0 buf') = r @ [NUL]"
    by auto
  from decode_no_NUL [OF r assms] b(3) have "c_str buf' 0 = r" by (simp add: c_str_prefix)
  with b r show "\<exists>buf'. unquote_argument (Some (s @ [NUL], 0)) = Inr (Some (buf', 0))
               \<and> length buf' = length s + 1 \<and> decode s = Some (c_str buf' 0)"
    by (simp add: unquote_argument_def)
qed

theorem unquote_argument_bounds_witness:
  "NUL \<notin> set ''a&_b&'' \<and> dangling_amp ''a&_b&''
   \<and> unquote_argument (Some (''a&_b&'' @ [NUL], 0)) = Inl OutOfBounds
   \<and> \<not> dangling_amp ''a&_b''
   \<and> (\<exists>buf'. unquote_argument (Some (''a&_b'' @ [NUL], 0)) = Inr (Some (buf', 0))
               \<and> length buf' = length ''a&_b'' + 1 \<and> decode ''a&_b'' = Some (c_str buf' 0))"
  using unquote_argument_bounds [of "''a&_b&''"] unquote_argument_bounds [of "''a&_b''"]
  by (simp add: NUL_def amp_def)

section \<open>Properties of the transport\<close>

lemma send_loop_nil: "send_loop os st [] = Some (Returned st)"
  by (subst send_loop.simps) simp

lemma send_loop_buffered:
  assumes "data \<noteq> []" "last data \<noteq> newline"
    and "length (send_buffer st) + length data < SEND_BUFFER_SIZE"
  shows "send_loop os st data = Some (Returned (st\<lparr>send_buffer := send_buffer st @ data\<rparr>))"
  using assms by (subst send_loop.simps) (simp add: Let_def min_def send_loop_nil)

lemma send_loop_flush:
  assumes "data \<noteq> []" "last data = newline"
    and "length (send_buffer st) + length data \<le> SEND_BUFFER_SIZE"
  shows "send_loop os st data =
           (let buf = send_buffer st @ data; sent = os (length (writes st)) buf
            in if sent < 0
               then Some (Failed (st\<lparr>writes := writes st @ [buf], send_buffer := buf\<rparr>))
               else Some (Returned (st\<lparr>writes := writes st @ [buf],
                                         send_buffer := drop (nat sent) buf\<rparr>)))"
  using assms by (subst send_loop.simps) (simp add: Let_def min_def send_loop_nil)

lemma send_to_emacs_empty: "send_to_emacs os st [] = Some (Returned st)"
  by (simp add: send_to_emacs_def c_str_def send_loop_nil)

lemma send_to_emacs_buffered:
  assumes "NUL \<notin> set data" "data \<noteq> []" "last data \<noteq> newline"
    and "length (send_buffer st) + length data < SEND_BUFFER_SIZE"
  shows "send_to_emacs os st data = Some (Returned (st\<lparr>send_buffer := send_buffer st @ data\<rparr>))"
  using assms by (simp add: send_to_emacs_def c_str_no_NUL send_loop_buffered)

lemma send_to_emacs_flush:
  assumes "NUL \<notin> set data" "data \<noteq> []" "last data = newline"
    and "length (send_buffer st) + length data \<le> SEND_BUFFER_SIZE"
  shows "\<exists>r. send_to_emacs os st data = Some r
           \<and> writes (final r) = writes st @ [send_buffer st @ data]"
  using assms by (simp add: send_to_emacs_def c_str_no_NUL send_loop_flush Let_def)

lemma send_all_buffered:
  assumes "\<forall>d\<in>set ds. NUL \<notin> set d \<and> (d \<noteq> [] \<longrightarrow> last d \<noteq> newline)"
    and "length (send_buffer st) + length (concat ds) < SEND_BUFFER_SIZE"
  shows "send_all os st ds = Some (Returned (st\<lparr>send_buffer := send_buffer st @ concat ds\<rparr>))"
  using assms
proof (induction ds arbitrary: st)
  case Nil
  show ?case by simp
next
  case (Cons d ds)
  show ?case
  proof (cases "d = []")
    case True
    with Cons show ?thesis by (simp add: send_to_emacs_empty)
  next
    case False
    let ?st = "st\<lparr>send_buffer := send_buffer st @ d\<rparr>"
    from False Cons.prems have "send_to_emacs os st d = Some (Returned ?st)"
      by (simp add: send_to_emacs_buffered)
    moreover from Cons.prems
    have "send_all os ?st ds = Some (Returned (?st\<lparr>send_buffer := send_buffer ?st @ concat ds\<rparr>))"
      by (intro Cons.IH) simp_all
    ultimately show ?thesis by simp
  qed
qed

lemma send_all_append:
  "send_all os st ds = Some (Returned st') \<Longrightarrow> send_all os st (ds @ es) = send_all os st' es"
proof (induction ds arbitrary: st)
  case Nil
  then show ?case by simp
next
  case (Cons d ds)
  then show ?case
    by (cases "send_to_emacs os st d") (auto split: outcome.splits)
qed

lemma send_all_flush:
  assumes "\<forall>d\<in>set ds. NUL \<notin> set d \<and> (d \<noteq> [] \<longrightarrow> last d \<noteq> newline)"
    and "NUL \<notin> set f" and "f \<noteq> []" and "last f = newline"
    and "length (send_buffer st) + length (concat ds) + length f \<le> SEND_BUFFER_SIZE"
  shows "\<exists>r. send_all os st (ds @ [f]) = Some r
           \<and> writes (final r) = writes st @ [send_buffer st @ concat ds @ f]"
proof -
  let ?st = "st\<lparr>send_buffer := send_buffer st @ concat ds\<rparr>"
  from assms(3,5) have "length (send_buffer st) + length (concat ds) < SEND_BUFFER_SIZE"
    by (cases f) auto
  with assms(1) have a: "send_all os st ds = Some (Returned ?st)"
    by (rule send_all_buffered)
  have "\<exists>r. send_to_emacs os ?st f = Some r \<and> writes (final r) = writes ?st @ [send_buffer ?st @ f]"
    using assms(2-5) by (intro send_to_emacs_flush) simp_all
  then obtain r where r: "send_to_emacs os ?st f = Some r"
    "writes (final r) = writes st @ [send_buffer st @ concat ds @ f]" by auto
  have "send_all os st (ds @ [f]) = send_all os ?st [f]"
    using a by (rule send_all_append)
  with r show ?thesis by (cases r) auto
qed

text \<open>
  Claim C6.  A sequence of sends none of which ends in a newline, and whose bytes together
  with the buffered ones stay strictly under the capacity of 4096, returns with the bytes
  appended to the buffer and without any write to the socket.  A send that follows, ends in
  a newline and still fits in the buffer, makes exactly one write, whose content is all
  the bytes buffered before followed by the new fragment.  This holds whatever the socket
  answers to that write.
\<close>

theorem send_flush_boundary:
  assumes "\<forall>d\<in>set ds. NUL \<notin> set d \<and> (d \<noteq> [] \<longrightarrow> last d \<noteq> newline)"
    and "length (send_buffer st) + length (concat ds) < SEND_BUFFER_SIZE"
    and "NUL \<notin> set f" and "f \<noteq> []" and "last f = newline"
    and "length (send_buffer st) + length (concat ds) + length f \<le> SEND_BUFFER_SIZE"
  shows "\<exists>st'. send_all os st ds = Some (Returned st') \<and> writes st' = writes st
           \<and> send_buffer st' = send_buffer st @ concat ds
           \<and> (\<exists>r. send_to_emacs os st' f = Some r
                 \<and> writes (final r) = writes st @ [send_buffer st @ concat ds @ f])"
proof -
  let ?st = "st\<lparr>send_buffer := send_buffer st @ concat ds\<rparr>"
  have a: "send_all os st ds = Some (Returned ?st)"
    using assms(1,2) by (rule send_all_buffered)
  have "\<exists>r. send_to_emacs os ?st f = Some r \<and> writes (final r) = writes ?st @ [send_buffer ?st @ f]"
    using assms(3-6) by (intro send_to_emacs_flush) simp_all
  with a show ?thesis by simp
qed

theorem send_flush_boundary_witness:
  "\<exists>st'. send_all (\<lambda>n buf. int (length buf)) \<lparr>send_buffer = [], writes = []\<rparr> [''-dir '', ''/tmp'', [], ''/ ''] = Some (Returned st')
      \<and> writes st' = [] \<and> send_buffer st' = ''-dir /tmp/ ''
      \<and> (\<exists>r. send_to_emacs (\<lambda>n buf. int (length buf)) st' [newline] = Some r
            \<and> writes (final r) = [''-dir /tmp/ '' @ [newline]])"
  using send_flush_boundary [of "[''-dir '', ''/tmp'', [], ''/ '']" "\<lparr>send_buffer = [], writes = []\<rparr>" "[newline]" "\<lambda>n buf. int (length buf)"]
  by (simp add: NUL_def newline_def SEND_BUFFER_SIZE_def)

section \<open>Properties of the command stream\<close>

lemma scenario_A_trace:
  assumes "getenv w ''EMACSCLIENT_TRAMP'' = None" and "find_tty prog w True = NoTty"
  shows "attempt w [''notes.txt'']
           (send_dir environ ''/home/u/proj''
              (decode_options w default_display id (startup prog buf)))
         = Returned ((startup prog buf)\<lparr>alternate_editor := getenv w ''ALTERNATE_EDITOR'',
              skiplf := False,
              trace := [Send ''-dir '', Send ''/home/u/proj'', Send ''/'', Send '' '',
                Send ''-current-frame '', Send ''-file '', Send ''notes.txt'', Send '' '',
                Send [newline], Stdout ''Waiting for Emacs...'']\<rparr>)"
  using assms
  by (simp add: attempt_def send_dir_def decode_options_def startup_def emit_def
      frame_directives_def tty_directives_def send_arguments_def wait_notice_def
      arg_directive_def position_arg_def quoted_def quote_copy_def c_str_def
      NUL_def space_def newline_def amp_def Let_def)

text \<open>
  Claim C8.  Working directory \<^verbatim>\<open>/home/u/proj\<close>, the one argument \<^verbatim>\<open>notes.txt\<close>,
  no option on the command line, \<^verbatim>\<open>EMACSCLIENT_TRAMP\<close> unset, and no usable terminal
  (\<^verbatim>\<open>find_tty\<close> finds none).  Then the calls of \<^verbatim>\<open>send_to_emacs\<close> made by \<^verbatim>\<open>main\<close>
  put one buffer on the socket: whatever the authentication left in the send buffer,
  followed by \<^verbatim>\<open>-dir /home/u/proj/ -current-frame -file notes.txt \<close> and one newline.
\<close>

theorem scenario_A_stream:
  assumes "getenv w ''EMACSCLIENT_TRAMP'' = None" and "find_tty prog w True = NoTty"
    and "length preamble \<le> 71"
  shows "\<exists>c' r. attempt w [''notes.txt'']
                  (send_dir environ ''/home/u/proj''
                     (decode_options w default_display id (startup prog buf)))
                = Returned c'
           \<and> send_all os \<lparr>send_buffer = preamble, writes = []\<rparr> (sends (trace c')) = Some r
           \<and> writes (final r)
               = [preamble @ ''-dir /home/u/proj/ -current-frame -file notes.txt '' @ [newline]]"
proof -
  let ?ds = "[''-dir '', ''/home/u/proj'', ''/'', '' '', ''-current-frame '', ''-file '',
              ''notes.txt'', '' '']"
  let ?st = "\<lparr>send_buffer = preamble, writes = []\<rparr>"
  have "\<exists>r. send_all os ?st (?ds @ [[newline]]) = Some r
          \<and> writes (final r) = writes ?st @ [send_buffer ?st @ concat ?ds @ [newline]]"
    using assms(3)
    by (intro send_all_flush) (simp_all add: NUL_def newline_def SEND_BUFFER_SIZE_def)
  with assms(1,2) show ?thesis
    by (simp add: scenario_A_trace)
qed

theorem scenario_A_stream_witness:
  "\<exists>c' r. attempt bare_world [''notes.txt'']
                  (send_dir [''HOME=/home/u''] ''/home/u/proj''
                     (decode_options bare_world None id (startup ''emacsclient'' (replicate 65 NUL))))
                = Returned c'
           \<and> send_all send_everything \<lparr>send_buffer = [], writes = []\<rparr> (sends (trace c')) = Some r
           \<and> writes (final r)
               = [[] @ ''-dir /home/u/proj/ -current-frame -file notes.txt '' @ [newline]]"
  using scenario_A_stream [of bare_world "''emacsclient''" "[]"
          "[''HOME=/home/u'']" None "replicate 65 NUL" send_everything]
  by (simp add: no_env_def find_tty_def bare_world_def)

section \<open>Properties of the endpoint resolver\<close>

lemma fopens_append: "fopens (xs @ ys) = fopens xs @ fopens ys"
  by (induction xs rule: fopens.induct) auto

lemma stats_append: "stats (xs @ ys) = stats xs @ stats ys"
  by (induction xs rule: stats.induct) auto

lemma fopens_connect_local:
  "fopens (trace (fst (connect_local w p st c))) = fopens (trace c)"
  by (auto simp: connect_local_def message_def emit_def fopens_append split: option.splits)

lemma fopens_set_local_socket:
  "fopens (trace (fst (set_local_socket w n c))) = fopens (trace c)"
  by (auto simp: set_local_socket_def Let_def message_def emit_def fopens_append
      fopens_connect_local split: option.splits)

lemma stats_connect_local:
  "stats (trace (fst (connect_local w p st c))) = stats (trace c)"
  by (auto simp: connect_local_def message_def emit_def stats_append split: option.splits)

lemma stats_set_tcp_socket:
  "stats (trace (fst (set_tcp_socket w f c))) = stats (trace c)"
  by (auto simp: set_tcp_socket_def get_server_config_def Let_def message_def emit_def
      stats_append split: option.splits server_config.splits prod.splits if_splits)

lemma decimal_1000: "decimal 1000 = ''1000''"
  by (simp add: decimal.simps digit_char_def)

lemma decimal_1001: "decimal 1001 = ''1001''"
  by (simp add: decimal.simps digit_char_def)

text \<open>
  Claim C1, as the code has it.  Endpoint resolution stops at the first configured
  endpoint, whether or not that endpoint can be reached.  \<open>sn\<close> is the configured socket
  name (the option, or else \<^verbatim>\<open>EMACS_SOCKET_NAME\<close>) and \<open>sf\<close> the configured server file
  (the option, or else \<^verbatim>\<open>EMACS_SERVER_FILE\<close>).

  \<^item> With a socket name, \<^verbatim>\<open>set_socket\<close> attempts the local socket and nothing else, also
    when a server file is configured: it opens no server file, and its result is the
    result of \<^verbatim>\<open>set_local_socket\<close>, except that \<^verbatim>\<open>INVALID_SOCKET\<close> becomes the diagnostic
    \<^verbatim>\<open>error accessing socket\<close> on standard error and \<^verbatim>\<open>exit (EXIT_FAILURE)\<close> when
    \<^verbatim>\<open>no_exit_if_error\<close> is false.
  \<^item> With no socket name and a server file, only \<^verbatim>\<open>set_tcp_socket\<close> runs: no socket file
    is examined, and the diagnostic is \<^verbatim>\<open>error accessing server file\<close>.
  \<^item> With neither, the socket \<^verbatim>\<open>server\<close> is attempted first and the server file
    \<^verbatim>\<open>server\<close> only when that gave \<^verbatim>\<open>INVALID_SOCKET\<close>.
\<close>

theorem set_socket_priority:
  assumes "sn = (case socket_name c of None \<Rightarrow> getenv w ''EMACS_SOCKET_NAME'' | Some n \<Rightarrow> Some n)"
    and "sf = (case server_file c of None \<Rightarrow> getenv w ''EMACS_SERVER_FILE'' | Some f \<Rightarrow> Some f)"
    and "c0 = c\<lparr>socket_name := sn\<rparr>"
  shows "case sn of
           Some name \<Rightarrow>
             set_socket w no_exit_if_error c
               = (case set_local_socket w name c0 of
                    (c1, s) \<Rightarrow>
                      if s \<noteq> INVALID_SOCKET \<or> no_exit_if_error then (c1, s)
                      else (c1\<lparr>trace := trace c1
                                  @ [Stderr (progname c @ '': error accessing socket '' @ [dquote]
                                             @ name @ [dquote] @ [newline])]\<rparr>,
                            ExitFailure))
             \<and> fopens (trace (fst (set_socket w no_exit_if_error c))) = fopens (trace c)
         | None \<Rightarrow>
             (case sf of
                Some fname \<Rightarrow>
                  set_socket w no_exit_if_error c
                    = (case set_tcp_socket w fname c0 of
                         (c1, s) \<Rightarrow>
                           if s \<noteq> INVALID_SOCKET \<or> no_exit_if_error then (c1, s)
                           else (c1\<lparr>trace := trace c1
                                       @ [Stderr (progname c @ '': error accessing server file ''
                                                  @ [dquote] @ fname @ [dquote] @ [newline])]\<rparr>,
                                 ExitFailure))
                  \<and> stats (trace (fst (set_socket w no_exit_if_error c))) = stats (trace c)
              | None \<Rightarrow>
                  set_socket w no_exit_if_error c
                    = (case set_local_socket w ''server'' c0 of
                         (c1, s) \<Rightarrow>
                           if s \<noteq> INVALID_SOCKET then (c1, s)
                           else
                             (case set_tcp_socket w ''server'' c1 of
                                (c2, s2) \<Rightarrow>
                                  if s2 \<noteq> INVALID_SOCKET \<or> no_exit_if_error then (c2, s2)
                                  else (c2\<lparr>trace := trace c2
                                              @ [Stderr (progname c
                                                   @ '': No socket or alternate editor.  Please use:''
                                                   @ [newline, newline, tab] @ ''--socket-name''
                                                   @ [newline, tab]
                                                   @ ''--server-file      (or environment variable EMACS_SERVER_FILE)''
                                                   @ [newline, tab]
                                                   @ ''--alternate-editor (or environment variable ALTERNATE_EDITOR)''
                                                   @ [newline])]\<rparr>,
                                        ExitFailure))))"
proof -
  have c0: "c\<lparr>socket_name := (case socket_name c of
                                  None \<Rightarrow> getenv w ''EMACS_SOCKET_NAME''
                                | Some n \<Rightarrow> Some n)\<rparr> = c0"
    using assms(1,3) by simp
  have sn0: "socket_name c0 = sn" using assms(3) by simp
  have sf0: "(case server_file c0 of None \<Rightarrow> getenv w ''EMACS_SERVER_FILE'' | Some f \<Rightarrow> Some f)
               = sf"
    using assms(2,3) by simp
  show ?thesis
  proof (cases sn)
  case (Some name)
  obtain c1 s where l: "set_local_socket w name c0 = (c1, s)"
    by (cases "set_local_socket w name c0")
  from fopens_set_local_socket [of w name c0] l assms(3)
  have f: "fopens (trace c1) = fopens (trace c)" by simp
  have e: "set_socket w no_exit_if_error c
             = (if s \<noteq> INVALID_SOCKET \<or> no_exit_if_error then (c1, s)
                else (c1\<lparr>trace := trace c1
                            @ [Stderr (progname c @ '': error accessing socket '' @ [dquote]
                                       @ name @ [dquote] @ [newline])]\<rparr>,
                      ExitFailure))"
    unfolding set_socket_def Let_def c0 using Some l
    by (simp add: sn0 message_def emit_def)
  from e f have "fopens (trace (fst (set_socket w no_exit_if_error c))) = fopens (trace c)"
    by (simp add: fopens_append)
  with e l Some show ?thesis by simp
next
  case None
  show ?thesis
  proof (cases sf)
    case (Some fname)
    obtain c1 s where l: "set_tcp_socket w fname c0 = (c1, s)"
      by (cases "set_tcp_socket w fname c0")
    from stats_set_tcp_socket [of w fname c0] l assms(3)
    have f: "stats (trace c1) = stats (trace c)" by simp
    have e: "set_socket w no_exit_if_error c
               = (if s \<noteq> INVALID_SOCKET \<or> no_exit_if_error then (c1, s)
                  else (c1\<lparr>trace := trace c1
                              @ [Stderr (progname c @ '': error accessing server file ''
                                         @ [dquote] @ fname @ [dquote] @ [newline])]\<rparr>,
                        ExitFailure))"
      unfolding set_socket_def Let_def c0 using None Some l
      by (simp add: sn0 sf0 message_def emit_def)
    from e f have "stats (trace (fst (set_socket w no_exit_if_error c))) = stats (trace c)"
      by (simp add: stats_append)
    with e l None Some show ?thesis by simp
  next
    case none: None
    have "set_socket w no_exit_if_error c
            = (case set_local_socket w ''server'' c0 of
                 (c1, s) \<Rightarrow>
                   if s \<noteq> INVALID_SOCKET then (c1, s)
                   else
                     (case set_tcp_socket w ''server'' c1 of
                        (c2, s2) \<Rightarrow>
                          if s2 \<noteq> INVALID_SOCKET \<or> no_exit_if_error then (c2, s2)
                          else (c2\<lparr>trace := trace c2
                                      @ [Stderr (progname c
                                           @ '': No socket or alternate editor.  Please use:''
                                           @ [newline, newline, tab] @ ''--socket-name''
                                           @ [newline, tab]
                                           @ ''--server-file      (or environment variable EMACS_SERVER_FILE)''
                                           @ [newline, tab]
                                           @ ''--alternate-editor (or environment variable ALTERNATE_EDITOR)''
                                           @ [newline])]\<rparr>,
                                ExitFailure)))"
      unfolding set_socket_def Let_def c0 using None none
      by (simp add: sn0 sf0 message_def emit_def split: prod.splits)
    with None none show ?thesis by simp
  qed
  qed
qed

theorem set_socket_priority_witness:
  "set_socket tcp_world False both_configured
     = (both_configured\<lparr>trace :=
          [Stat ''/tmp/emacs1000/work'',
           Stderr (''emacsclient: can't find socket; have you started the server?'' @ [newline]
                   @ ''To start the server in Emacs, type '' @ [dquote] @ ''M-x server-start''
                   @ [dquote] @ ''.'' @ [newline]),
           Stderr (''emacsclient: error accessing socket '' @ [dquote] @ ''work'' @ [dquote]
                   @ [newline])]\<rparr>,
        ExitFailure)
   \<and> fopens (trace (fst (set_socket tcp_world False both_configured))) = []
   \<and> set_socket tcp_world False server_file_only
     = (server_file_only\<lparr>trace :=
          [Fopen ''/home/u/.emacs.d/server/server'', Send ''-auth '',
           Send (replicate 64 (CHR ''k'')), Send '' '']\<rparr>,
        Connected (TcpSocket ''127.0.0.1'' (''4242 77'' @ [newline])))
   \<and> stats (trace (fst (set_socket tcp_world False server_file_only))) = []
   \<and> set_socket tcp_world False (startup ''emacsclient'' (replicate 65 NUL))
     = ((startup ''emacsclient'' (replicate 65 NUL))\<lparr>trace :=
          [Stat ''/tmp/emacs1000/server'',
           Stderr (''emacsclient: can't find socket; have you started the server?'' @ [newline]
                   @ ''To start the server in Emacs, type '' @ [dquote] @ ''M-x server-start''
                   @ [dquote] @ ''.'' @ [newline]),
           Fopen ''/home/u/.emacs.d/server/server'', Send ''-auth '',
           Send (replicate 64 (CHR ''k'')), Send '' '']\<rparr>,
        Connected (TcpSocket ''127.0.0.1'' (''4242 77'' @ [newline])))"
proof -
  let ?none = "startup ''emacsclient'' (replicate 65 NUL)"
  let ?lost = "Stderr (''emacsclient: can't find socket; have you started the server?'' @ [newline]
                       @ ''To start the server in Emacs, type '' @ [dquote] @ ''M-x server-start''
                       @ [dquote] @ ''.'' @ [newline])"
  let ?auth = "[Fopen ''/home/u/.emacs.d/server/server'', Send ''-auth '',
                Send (replicate 64 (CHR ''k'')), Send '' '']"
  have l1: "set_local_socket tcp_world ''work'' both_configured
              = (both_configured\<lparr>trace := [Stat ''/tmp/emacs1000/work'', ?lost]\<rparr>, INVALID_SOCKET)"
    by (simp add: tcp_world_def bare_world_def both_configured_def startup_def
        set_local_socket_def c_str_def socket_tmpdir_def first_socket_name_def socket_path_def
        decimal_1000 socket_status_def login_uid_def connect_local_def message_def emit_def
        no_env_def home_env_def no_stat_def no_user_def NUL_def newline_def Let_def ENOENT_def)
  have l3: "set_local_socket tcp_world ''server'' ?none
              = (?none\<lparr>trace := [Stat ''/tmp/emacs1000/server'', ?lost]\<rparr>, INVALID_SOCKET)"
    by (simp add: tcp_world_def bare_world_def startup_def
        set_local_socket_def c_str_def socket_tmpdir_def first_socket_name_def socket_path_def
        decimal_1000 socket_status_def login_uid_def connect_local_def message_def emit_def
        no_env_def home_env_def no_stat_def no_user_def NUL_def newline_def Let_def ENOENT_def)
  have t2: "set_tcp_socket tcp_world ''server'' server_file_only
              = (server_file_only\<lparr>trace := ?auth\<rparr>,
                 Connected (TcpSocket ''127.0.0.1'' (''4242 77'' @ [newline])))"
    by (simp add: tcp_world_def bare_world_def server_file_only_def startup_def
        set_tcp_socket_def get_server_config_def config_path_def file_name_absolute_p_def
        c_str_def message_def emit_def home_env_def server_files_def accept_inet_def
        no_inet_addr_def AUTH_KEY_LENGTH_def NUL_def newline_def Let_def)
  have t3: "set_tcp_socket tcp_world ''server''
              (?none\<lparr>trace := [Stat ''/tmp/emacs1000/server'', ?lost]\<rparr>)
              = (?none\<lparr>trace := [Stat ''/tmp/emacs1000/server'', ?lost] @ ?auth\<rparr>,
                 Connected (TcpSocket ''127.0.0.1'' (''4242 77'' @ [newline])))"
    by (simp add: tcp_world_def bare_world_def startup_def
        set_tcp_socket_def get_server_config_def config_path_def file_name_absolute_p_def
        c_str_def message_def emit_def home_env_def server_files_def accept_inet_def
        no_inet_addr_def AUTH_KEY_LENGTH_def NUL_def newline_def Let_def)
  have f1: "progname both_configured = ''emacsclient''" "trace both_configured = []"
    "socket_name both_configured = Some ''work''" "server_file both_configured = Some ''server''"
    "both_configured\<lparr>socket_name := Some ''work''\<rparr> = both_configured"
    by (simp_all add: both_configured_def startup_def)
  have f2: "trace server_file_only = []" "socket_name server_file_only = None"
    "server_file server_file_only = Some ''server''"
    "server_file_only\<lparr>socket_name := None\<rparr> = server_file_only"
    by (simp_all add: server_file_only_def startup_def)
  have f3: "trace ?none = []" "socket_name ?none = None" "server_file ?none = None"
    "?none\<lparr>socket_name := None\<rparr> = ?none"
    by (simp_all add: startup_def)
  have e: "getenv tcp_world ''EMACS_SOCKET_NAME'' = None"
    "getenv tcp_world ''EMACS_SERVER_FILE'' = None"
    by (simp_all add: tcp_world_def home_env_def)
  from set_socket_priority [where c = both_configured and w = tcp_world
          and sn = "Some ''work''" and sf = "Some ''server''" and c0 = both_configured
          and no_exit_if_error = False]
  have 1: "set_socket tcp_world False both_configured
             = (both_configured\<lparr>trace := [Stat ''/tmp/emacs1000/work'', ?lost,
                   Stderr (''emacsclient: error accessing socket '' @ [dquote] @ ''work''
                           @ [dquote] @ [newline])]\<rparr>, ExitFailure)
           \<and> fopens (trace (fst (set_socket tcp_world False both_configured))) = []"
    by (simp add: f1 l1)
  from set_socket_priority [where c = server_file_only and w = tcp_world
          and sn = None and sf = "Some ''server''" and c0 = server_file_only
          and no_exit_if_error = False]
  have 2: "set_socket tcp_world False server_file_only
             = (server_file_only\<lparr>trace := ?auth\<rparr>,
                Connected (TcpSocket ''127.0.0.1'' (''4242 77'' @ [newline])))
           \<and> stats (trace (fst (set_socket tcp_world False server_file_only))) = []"
    by (simp add: f2 e t2)
  from set_socket_priority [where c = ?none and w = tcp_world and sn = None and sf = None
          and c0 = ?none and no_exit_if_error = False]
  have 3: "set_socket tcp_world False ?none
             = (?none\<lparr>trace := [Stat ''/tmp/emacs1000/server'', ?lost] @ ?auth\<rparr>,
                Connected (TcpSocket ''127.0.0.1'' (''4242 77'' @ [newline])))"
    by (simp add: f3 e l3 t3 [simplified])
  from 1 2 3 show ?thesis by simp
qed

text \<open>
  Claim C1 as stated fails: in \<open>tcp_world\<close> the socket \<^verbatim>\<open>/tmp/emacs1000/work\<close> is absent
  and the server file would connect, yet \<^verbatim>\<open>set_socket\<close> returns \<^verbatim>\<open>INVALID_SOCKET\<close>
  (or exits) without opening the server file.
\<close>

theorem explicit_socket_fallback_counterexample:
  "stat tcp_world ''/tmp/emacs1000/work'' = Inl ENOENT
   \<and> snd (set_tcp_socket tcp_world ''server'' both_configured)
       = Connected (TcpSocket ''127.0.0.1'' (''4242 77'' @ [newline]))
   \<and> snd (set_socket tcp_world True both_configured) = INVALID_SOCKET
   \<and> snd (set_socket tcp_world False both_configured) = ExitFailure
   \<and> fopens (trace (fst (set_socket tcp_world True both_configured))) = []"
  by (simp add: tcp_world_def bare_world_def both_configured_def startup_def set_socket_def
      set_local_socket_def set_tcp_socket_def get_server_config_def config_path_def
      file_name_absolute_p_def c_str_def socket_tmpdir_def first_socket_name_def socket_path_def
      decimal_1000 socket_status_def login_uid_def connect_local_def message_def emit_def
      no_env_def home_env_def no_stat_def no_user_def server_files_def accept_inet_def
      no_inet_addr_def AUTH_KEY_LENGTH_def NUL_def newline_def Let_def)

text \<open>
  Claim C3 as stated fails for the missing file: \<^verbatim>\<open>set_tcp_socket\<close> returns
  \<^verbatim>\<open>INVALID_SOCKET\<close>, prints nothing and does not exit.
\<close>

theorem missing_server_file_counterexample:
  "set_tcp_socket no_file_world ''server'' (startup ''emacsclient'' [NUL])
     = (emit [Fopen ''/home/u/.emacs.d/server/server''] (startup ''emacsclient'' [NUL]),
        INVALID_SOCKET)"
  by (simp add: no_file_world_def bare_world_def set_tcp_socket_def get_server_config_def
      config_path_def file_name_absolute_p_def c_str_def home_env_def no_env_def NUL_def)

text \<open>
  Claim C3, as the code has it.  Of the failures to read the server file, two are fatal:
  a first line without a colon (an empty file included) and fewer than 64 bytes of
  authentication after the first line.  Each prints its diagnostic and exits.  A file
  that cannot be opened is not fatal: \<^verbatim>\<open>set_tcp_socket\<close> returns \<^verbatim>\<open>INVALID_SOCKET\<close>
  without a diagnostic, and the caller decides.
\<close>

theorem server_config_failures:
  assumes "config_path w f = Some p"
  shows "(fopen w p = None \<longrightarrow> set_tcp_socket w f c = (emit [Fopen p] c, INVALID_SOCKET))
       \<and> (fopen w p = Some content \<and> CHR '':'' \<notin> set (c_str (fgets_take 31 content) 0) \<longrightarrow>
            set_tcp_socket w f c
              = (emit [Fopen p, Stderr (progname c @ '': invalid configuration info'' @ [newline])] c,
                 ExitFailure))
       \<and> (fopen w p = Some content \<and> CHR '':'' \<in> set (c_str (fgets_take 31 content) 0)
            \<and> length content < length (fgets_take 31 content) + AUTH_KEY_LENGTH \<longrightarrow>
            set_tcp_socket w f c
              = (emit [Fopen p, Stderr (progname c @ '': cannot read authentication info''
                                        @ [newline])] c,
                 ExitFailure))"
proof -
  have short: "length (drop (length (fgets_take 31 content)) content) < AUTH_KEY_LENGTH
                 \<longleftrightarrow> length content < length (fgets_take 31 content) + AUTH_KEY_LENGTH"
    using length_fgets_take [of 31 content] by auto
  show ?thesis
    using assms short
    by (auto simp: set_tcp_socket_def get_server_config_def message_def emit_def Let_def)
qed

theorem server_config_failures_witness:
  "set_tcp_socket no_file_world ''server'' (startup ''emacsclient'' [NUL])
     = (emit [Fopen ''/home/u/.emacs.d/server/server''] (startup ''emacsclient'' [NUL]),
        INVALID_SOCKET)
   \<and> set_tcp_socket (no_file_world\<lparr>fopen := garbled_files\<rparr>) ''server''
         (startup ''emacsclient'' [NUL])
       = (emit [Fopen ''/home/u/.emacs.d/server/server'',
                Stderr (''emacsclient: invalid configuration info'' @ [newline])]
            (startup ''emacsclient'' [NUL]),
          ExitFailure)
   \<and> set_tcp_socket (no_file_world\<lparr>fopen := short_files\<rparr>) ''server''
         (startup ''emacsclient'' [NUL])
       = (emit [Fopen ''/home/u/.emacs.d/server/server'',
                Stderr (''emacsclient: cannot read authentication info'' @ [newline])]
            (startup ''emacsclient'' [NUL]),
          ExitFailure)"
  using server_config_failures [where w = no_file_world and f = "''server''"
          and p = "''/home/u/.emacs.d/server/server''" and content = "[]"
          and c = "startup ''emacsclient'' [NUL]"]
    server_config_failures [where w = "no_file_world\<lparr>fopen := garbled_files\<rparr>"
          and f = "''server''" and p = "''/home/u/.emacs.d/server/server''"
          and content = "''localhost 4242'' @ [newline]"
          and c = "startup ''emacsclient'' [NUL]"]
    server_config_failures [where w = "no_file_world\<lparr>fopen := short_files\<rparr>"
          and f = "''server''" and p = "''/home/u/.emacs.d/server/server''"
          and content = "''127.0.0.1:4242 77'' @ [newline] @ replicate 63 (CHR ''k'')"
          and c = "startup ''emacsclient'' [NUL]"]
  by (simp add: no_file_world_def bare_world_def config_path_def file_name_absolute_p_def
      c_str_def home_env_def no_env_def NUL_def newline_def garbled_files_def short_files_def
      AUTH_KEY_LENGTH_def startup_def)

text \<open>
  An exit in \<^verbatim>\<open>get_server_config\<close> ends \<^verbatim>\<open>set_socket\<close> too, whatever
  \<^verbatim>\<open>no_exit_if_error\<close> is.
\<close>

lemma config_exit_is_final:
  assumes "socket_name c = None" and "getenv w ''EMACS_SOCKET_NAME'' = None"
    and "server_file c = Some f" and "set_tcp_socket w f c = (c1, ExitFailure)"
  shows "set_socket w no_exit_if_error c = (c1, ExitFailure)"
proof -
  from assms(1) have c: "c\<lparr>socket_name := None\<rparr> = c" by simp
  show ?thesis
    unfolding set_socket_def Let_def using assms(1-3) by (simp add: c assms(4))
qed

text \<open>
  Claim C4 as stated fails in both directions.  In \<open>su_world\<close> the first \<^verbatim>\<open>stat\<close> fails
  (status 2, not "wrong owner") and the second path is tried all the same; and for the
  name \<^verbatim>\<open>/run/emacs/server\<close>, owned by another user, with a login name that resolves to
  another uid, no second path is tried.
\<close>

theorem secondary_lookup_counterexample:
  "stat su_world ''/tmp/emacs1000/server'' = Inl ENOENT
   \<and> stats (trace (fst (set_local_socket su_world ''server'' (startup ''emacsclient'' [NUL]))))
       = [''/tmp/emacs1000/server'', ''/tmp/emacs1001/server'']
   \<and> stat su_world ''/run/emacs/server'' = Inr 1001 \<and> geteuid su_world = 1000
   \<and> login_uid su_world = Some 1001
   \<and> stats (trace (fst (set_local_socket su_world ''/run/emacs/server''
                          (startup ''emacsclient'' [NUL]))))
       = [''/run/emacs/server'']"
  by (simp add: su_world_def bare_world_def startup_def set_local_socket_def
      c_str_def socket_tmpdir_def first_socket_name_def socket_path_def
      decimal_1000 decimal_1001 socket_status_def login_uid_def connect_local_def message_def
      emit_def logname_env_def alice_user_def alice_stat_def ENOENT_def NUL_def Let_def)

text \<open>
  Claim C4, as the code has it.  \<^verbatim>\<open>set_local_socket\<close> checks the first path, and checks
  a second path, before it fails or connects, exactly when the first check did not succeed
  (the \<^verbatim>\<open>stat\<close> failed or the owner is not the effective uid), the socket name has no
  directory separator, \<^verbatim>\<open>LOGNAME\<close> (or else \<^verbatim>\<open>USER\<close>) resolves in the account database
  to a uid other than the effective uid, and the path of that uid fits in
  \<^verbatim>\<open>sun_path\<close>.
\<close>

theorem secondary_lookup:
  assumes "socket_unix w = None" and "NUL \<notin> set name"
    and "length (first_socket_name w name) < sun_path_size w"
  shows "stats (trace (fst (set_local_socket w name c)))
           = stats (trace c) @ first_socket_name w name
             # (case (socket_tmpdir w name, login_uid w) of
                  (Some d, Some uid) \<Rightarrow>
                    if stat w (first_socket_name w name) \<noteq> Inr (geteuid w)
                       \<and> length (socket_path d uid name) < sun_path_size w
                    then [socket_path d uid name]
                    else []
                | _ \<Rightarrow> [])"
proof -
  have s: "fst (socket_status w p e) \<noteq> 0 \<longleftrightarrow> stat w p \<noteq> Inr (geteuid w)" for p e
    by (auto simp: socket_status_def split: sum.splits)
  show ?thesis
    using assms s
    by (auto simp: set_local_socket_def c_str_no_NUL Let_def emit_def message_def stats_append
        stats_connect_local split: option.splits)
qed

theorem secondary_lookup_witness:
  "stats (trace (fst (set_local_socket su_world ''server'' (startup ''emacsclient'' [NUL]))))
     = stats (trace (startup ''emacsclient'' [NUL])) @ first_socket_name su_world ''server''
       # (case (socket_tmpdir su_world ''server'', login_uid su_world) of
            (Some d, Some uid) \<Rightarrow>
              if stat su_world (first_socket_name su_world ''server'') \<noteq> Inr (geteuid su_world)
                 \<and> length (socket_path d uid ''server'') < sun_path_size su_world
              then [socket_path d uid ''server'']
              else []
          | _ \<Rightarrow> [])
   \<and> socket_tmpdir su_world ''server'' = Some ''/tmp'' \<and> login_uid su_world = Some 1001
   \<and> stat su_world (first_socket_name su_world ''server'') \<noteq> Inr (geteuid su_world)
   \<and> length (socket_path ''/tmp'' 1001 ''server'') < sun_path_size su_world"
  using secondary_lookup [of su_world "''server''" "startup ''emacsclient'' [NUL]"]
  by (simp add: su_world_def bare_world_def socket_tmpdir_def first_socket_name_def
      socket_path_def decimal_1000 decimal_1001 login_uid_def logname_env_def alice_user_def
      alice_stat_def ENOENT_def NUL_def)

section \<open>Properties of the receive and dispatch loop\<close>

text \<open>
  The process id of \<^verbatim>\<open>-emacs-pid\<close> is kept in 32 bits.
\<close>

lemma int_of_long_wraps: "int_of_long 4294967297 = 1 \<and> int_of_long 4321 = 4321 \<and> int_of_long (- 1) = - 1"
  by (simp add: int_of_long_def)

subsection \<open>The message -error\<close>

lemma strchr_list_newline:
  "NUL \<notin> set xs \<Longrightarrow> newline \<notin> set xs \<Longrightarrow>
   strchr_list (xs @ newline # ys) i = Inr (Some (i + length xs))"
  by (induction xs arbitrary: i) auto

lemma handle_message_error:
  assumes "string_buf c = pre @ ''-error '' @ text @ NUL # rest"
    and "NUL \<notin> set text" and "decode text = Some str"
  shows "\<exists>buf. length buf = length (string_buf c)
           \<and> drop (length pre + 8 + length text) buf = rest
           \<and> handle_message strtol c (length pre) = Inr (error_result buf str c, Continue)"
proof -
  let ?p = "length pre + length ''-error ''"
  have msg: "c_str (string_buf c) (length pre) = ''-error '' @ text"
    using c_str_at [of "''-error '' @ text" pre rest] assms(1,2) by (simp add: NUL_def)
  have d: "drop ?p (string_buf c) = text @ NUL # rest"
    using assms(1) by simp
  from unquote_loop_decode [OF assms(2) _ d assms(3), of ?p]
  obtain buf where b: "unquote_loop (string_buf c) ?p ?p = Inr buf"
    "length buf = length (string_buf c)"
    "take (Suc (length str)) (drop ?p buf) = str @ [NUL]"
    "drop (Suc (?p + length text)) buf = rest"
    by auto
  from decode_no_NUL [OF assms(3,2)] b(3) have s: "c_str buf ?p = str"
    by (simp add: c_str_def takeWhile_prefix_NUL)
  have "handle_message strtol c (length pre) = Inr (error_result buf str c, Continue)"
    using msg b(1) s
    by (simp add: handle_message_def strprefix_def error_result_def Let_def)
  moreover have "length pre + 8 + length text = Suc (?p + length text)"
    by simp
  then have "drop (length pre + 8 + length text) buf = rest"
    using b(4) by (simp only:)
  ultimately show ?thesis using b(2) by blast
qed

lemma dispatch_loop_error:
  assumes "string_buf c = pre @ ''-error '' @ text @ newline # rest"
    and "NUL \<notin> set text" and "newline \<notin> set text" and "decode text = Some str"
  shows "\<exists>buf. length buf = length (string_buf c)
           \<and> drop (length pre + 8 + length text) buf = rest
           \<and> dispatch_loop strtol c (length pre)
               = dispatch_loop strtol (error_result buf str c) (length pre + 8 + length text)"
proof -
  let ?k = "length pre + (length ''-error '' + length text)"
  let ?c1 = "c\<lparr>string_buf := (string_buf c)[?k := NUL]\<rparr>"
  have k: "strchr_newline (string_buf c) (length pre) = Inr (Some ?k)"
    using strchr_list_newline [of "''-error '' @ text" rest "length pre"] assms(1-3)
    by (simp add: strchr_newline_def NUL_def newline_def)
  have b1: "string_buf ?c1 = pre @ ''-error '' @ text @ NUL # rest"
    using assms(1) by (simp add: list_update_append)
  from handle_message_error [OF b1 assms(2,4), of strtol]
  obtain buf where b: "length buf = length (string_buf ?c1)"
    "drop (length pre + 8 + length text) buf = rest"
    "handle_message strtol ?c1 (length pre) = Inr (error_result buf str ?c1, Continue)"
    by blast
  have e: "error_result buf str ?c1 = error_result buf str c"
    by (simp add: error_result_def emit_def set_skiplf_def)
  have p: "\<not> length (string_buf c) \<le> length pre" "string_buf c ! length pre \<noteq> NUL"
    using assms(1) by (simp_all add: nth_append NUL_def)
  have step: "dispatch_loop strtol c (length pre)
                = dispatch_loop strtol (error_result buf str c) (Suc ?k)"
    using p k b(3) e by (subst dispatch_loop.simps) (simp del: length_append)
  have idx: "Suc ?k = length pre + 8 + length text" by simp
  from step have "dispatch_loop strtol c (length pre)
               = dispatch_loop strtol (error_result buf str c) (length pre + 8 + length text)"
    by (simp only: idx)
  with b(1,2) show ?thesis by auto
qed

text \<open>
  Once \<^verbatim>\<open>exit_status\<close> is not \<^verbatim>\<open>EXIT_SUCCESS\<close> the outer loop receives nothing more.
\<close>

lemma recv_loop_after_failure:
  "exit_status c \<noteq> EXIT_SUCCESS \<Longrightarrow>
   recv_loop w strtol args c net = Inr (Returned (finish False c))"
  by (cases net) simp_all

lemma failure_not_success: "EXIT_FAILURE \<noteq> EXIT_SUCCESS"
  by (simp add: EXIT_FAILURE_def EXIT_SUCCESS_def)

text \<open>
  No message sets \<^verbatim>\<open>exit_status\<close> back to success, and a message only adds to the trace.
\<close>

lemma handle_message_keeps_failure:
  "handle_message strtol c p = Inr (c', s) \<Longrightarrow> exit_status c = EXIT_FAILURE \<Longrightarrow>
   exit_status c' = EXIT_FAILURE"
  by (auto simp: handle_message_def Let_def set_skiplf_def emit_def retry_transition_def
           split: if_splits sum.splits option.splits)

lemma dispatch_loop_keeps_failure:
  "dispatch_loop strtol c p = Inr (c', s) \<Longrightarrow> exit_status c = EXIT_FAILURE \<Longrightarrow>
   exit_status c' = EXIT_FAILURE"
proof (induction strtol c p rule: dispatch_loop.induct)
  case (1 strtol c p)
  note eq = "1.prems"(1) [unfolded dispatch_loop.simps [of strtol c p]]
  from eq have inb: "\<not> length (string_buf c) \<le> p" by (auto split: if_splits)
  show ?case
  proof (cases "string_buf c ! p = NUL")
    case True
    with eq inb "1.prems"(2) show ?thesis by auto
  next
    case False
    from eq inb False obtain r where r: "strchr_newline (string_buf c) p = Inr r"
      by (cases "strchr_newline (string_buf c) p") auto
    show ?thesis
    proof (cases r)
      case None
      with eq inb False r have "handle_message strtol c p = Inr (c', s)" by simp
      then show ?thesis using "1.prems"(2) by (rule handle_message_keeps_failure)
    next
      case (Some k)
      let ?c1 = "c\<lparr>string_buf := (string_buf c)[k := NUL]\<rparr>"
      from eq inb False r Some obtain c2 s2 where h: "handle_message strtol ?c1 p = Inr (c2, s2)"
        by (cases "handle_message strtol ?c1 p") auto
      from h "1.prems"(2) have f: "exit_status c2 = EXIT_FAILURE"
        by (auto dest: handle_message_keeps_failure)
      show ?thesis
      proof (cases s2)
        case Retry
        with eq inb False r Some h f show ?thesis by auto
      next
        case Continue
        with eq inb False r Some h have "dispatch_loop strtol c2 (Suc k) = Inr (c', s)" by simp
        from "1.IH" [OF inb False r Some h refl Continue this f] show ?thesis .
      qed
    qed
  qed
qed

lemma handle_message_extends_trace:
  "handle_message strtol c p = Inr (c', s) \<Longrightarrow> \<exists>es. trace c' = trace c @ es"
  by (auto simp: handle_message_def Let_def set_skiplf_def emit_def retry_transition_def
           split: if_splits sum.splits option.splits)

lemma dispatch_loop_extends_trace:
  "dispatch_loop strtol c p = Inr (c', s) \<Longrightarrow> \<exists>es. trace c' = trace c @ es"
proof (induction strtol c p rule: dispatch_loop.induct)
  case (1 strtol c p)
  note eq = "1.prems"(1) [unfolded dispatch_loop.simps [of strtol c p]]
  from eq have inb: "\<not> length (string_buf c) \<le> p" by (auto split: if_splits)
  show ?case
  proof (cases "string_buf c ! p = NUL")
    case True
    with eq inb show ?thesis by auto
  next
    case False
    from eq inb False obtain r where r: "strchr_newline (string_buf c) p = Inr r"
      by (cases "strchr_newline (string_buf c) p") auto
    show ?thesis
    proof (cases r)
      case None
      with eq inb False r have "handle_message strtol c p = Inr (c', s)" by simp
      then show ?thesis by (rule handle_message_extends_trace)
    next
      case (Some k)
      let ?c1 = "c\<lparr>string_buf := (string_buf c)[k := NUL]\<rparr>"
      from eq inb False r Some obtain c2 s2 where h: "handle_message strtol ?c1 p = Inr (c2, s2)"
        by (cases "handle_message strtol ?c1 p") auto
      from handle_message_extends_trace [OF h]
      obtain es where es: "trace c2 = trace c @ es" by auto
      show ?thesis
      proof (cases s2)
        case Retry
        with eq inb False r Some h es show ?thesis by auto
      next
        case Continue
        with eq inb False r Some h have "dispatch_loop strtol c2 (Suc k) = Inr (c', s)" by simp
        from "1.IH" [OF inb False r Some h refl Continue this]
        obtain es' where "trace c' = trace c2 @ es'" by blast
        with es have "trace c' = trace c @ (es @ es')" by simp
        then show ?thesis by blast
      qed
    qed
  qed
qed

text \<open>
  The code from the label \<^verbatim>\<open>retry\<close> on does not change \<^verbatim>\<open>exit_status\<close>.
\<close>

lemma exit_status_read_expressions:
  "exit_status (read_expressions c) = exit_status c"
proof (induction c rule: read_expressions.induct)
  case (1 c)
  let ?line = "fgets_take (length (string_buf c) - 2) (stdin c)"
  show ?case
  proof (cases "?line = []")
    case True
    then show ?thesis by (subst read_expressions.simps) (simp add: Let_def)
  next
    case False
    let ?c = "c\<lparr>string_buf := ?line @ NUL # drop (Suc (length ?line)) (string_buf c),
                  stdin := drop (length ?line) (stdin c),
                  trace := trace c @ [Send ''-eval '', quoted ?line]\<rparr>"
    have "read_expressions c = read_expressions ?c"
      using False by (subst read_expressions.simps) (simp add: Let_def)
    with "1.IH" [OF refl False] show ?thesis by simp
  qed
qed

lemma exit_status_attempt:
  "exit_status (final (attempt w args c)) = exit_status c"
  by (auto simp: attempt_def Let_def emit_def wait_notice_def send_arguments_def
      exit_status_read_expressions split: tty_lookup.splits)

lemma replicate_update: "(replicate n x)[i := x] = replicate n x"
  by (induction n arbitrary: i) (auto split: nat.splits)

text \<open>
  Claim C2, as the code has it.  The dispatch loop, started on a chunk \<open>d\<close> received in a
  state \<open>c0\<close> whose \<^verbatim>\<open>exit_status\<close> is \<^verbatim>\<open>EXIT_SUCCESS\<close>, has arrived in the state \<open>c\<close> at
  a message \<^verbatim>\<open>-error text\<close> that ends in a newline, at the index \<open>length pre\<close> of the
  buffer, and \<open>text\<close> decodes to \<open>str\<close>.  Let \<open>e\<close> be \<open>c\<close> after \<open>*ERROR*: str\<close> has
  been written to standard error, after a newline on standard output when \<^verbatim>\<open>skiplf\<close> was
  false, with \<^verbatim>\<open>exit_status\<close> set to \<^verbatim>\<open>EXIT_FAILURE\<close> and the rest of the chunk untouched
  in the buffer.  Then:

  \<^item> the loop goes on in the state \<open>e\<close> with the message that follows in the chunk;
  \<^item> when the message was the last of the chunk the loop returns \<open>e\<close>;
  \<^item> whatever the loop returns has \<^verbatim>\<open>exit_status\<close> \<^verbatim>\<open>EXIT_FAILURE\<close> and a trace that extends
    the trace of \<open>e\<close>;
  \<^item> after this chunk nothing more is received: the result of the outer loop is made of
    what the dispatch of this chunk returns, and does not depend on the later answers
    \<open>net\<close> of the socket;
  \<^item> the exit status at the end is \<^verbatim>\<open>EXIT_FAILURE\<close>.
\<close>

theorem error_message_dispatch:
  assumes "string_buf c = pre @ ''-error '' @ text @ newline # rest"
    and "NUL \<notin> set text" and "newline \<notin> set text" and "decode text = Some str"
    and "exit_status c0 = EXIT_SUCCESS" and "take (BUFSIZ c0) d \<noteq> []"
    and "dispatch_loop strtol (recv_store (take (BUFSIZ c0) d) c0) 0
           = dispatch_loop strtol c (length pre)"
  shows "\<exists>buf. length buf = length (string_buf c)
           \<and> drop (length pre + 8 + length text) buf = rest
           \<and> (let e = c\<lparr>skiplf := (if str = [] then skiplf c else last str = newline),
                         exit_status := EXIT_FAILURE,
                         string_buf := buf,
                         trace := trace c @ (if skiplf c then [] else [Stdout [newline]])
                                  @ [Stderr (''*ERROR*: '' @ str)]\<rparr>;
                   r = dispatch_loop strtol e (length pre + 8 + length text)
               in dispatch_loop strtol c (length pre) = r
                \<and> (take 1 rest = [NUL] \<longrightarrow> r = Inr (e, Continue))
                \<and> (\<forall>c' s. r = Inr (c', s) \<longrightarrow>
                      exit_status c' = EXIT_FAILURE \<and> (\<exists>es. trace c' = trace e @ es))
                \<and> recv_loop w strtol args c0 (Received d # net)
                    = (case r of
                         Inl err \<Rightarrow> Inl err
                       | Inr (c', Continue) \<Rightarrow> Inr (Returned (finish False c'))
                       | Inr (c', Retry) \<Rightarrow>
                           (case attempt w args c' of
                              Failed c'' \<Rightarrow> Inr (Failed c'')
                            | Returned c'' \<Rightarrow> Inr (Returned (finish False c''))))
                \<and> (\<forall>out. recv_loop w strtol args c0 (Received d # net) = Inr out \<longrightarrow>
                      exit_status (final out) = EXIT_FAILURE))"
proof -
  let ?q = "length pre + 8 + length text"
  from dispatch_loop_error [OF assms(1-4), of strtol]
  obtain buf where b: "length buf = length (string_buf c)"
    "drop ?q buf = rest"
    "dispatch_loop strtol c (length pre) = dispatch_loop strtol (error_result buf str c) ?q"
    by blast
  define e where "e = c\<lparr>skiplf := (if str = [] then skiplf c else last str = newline),
                         exit_status := EXIT_FAILURE,
                         string_buf := buf,
                         trace := trace c @ (if skiplf c then [] else [Stdout [newline]])
                                  @ [Stderr (''*ERROR*: '' @ str)]\<rparr>"
  define r where "r = dispatch_loop strtol e ?q"
  have ee: "error_result buf str c = e"
    by (simp add: e_def error_result_def emit_def set_skiplf_def)
  have ef: "exit_status e = EXIT_FAILURE" "string_buf e = buf"
    by (simp_all add: e_def)
  have 1: "dispatch_loop strtol c (length pre) = r"
    using b(3) by (simp add: ee r_def)
  have 2: "take 1 rest = [NUL] \<longrightarrow> r = Inr (e, Continue)"
  proof
    assume t: "take 1 rest = [NUL]"
    then obtain junk where j: "rest = NUL # junk" by (cases rest) auto
    with b(2) have d: "drop ?q buf = NUL # junk" by simp
    then have "?q < length buf" by (cases "?q < length buf") auto
    moreover from d have "buf ! ?q = NUL"
      by (metis nth_via_drop)
    ultimately show "r = Inr (e, Continue)"
      unfolding r_def by (subst dispatch_loop.simps) (simp add: ef)
  qed
  have 3: "\<forall>c' s. r = Inr (c', s) \<longrightarrow>
             exit_status c' = EXIT_FAILURE \<and> (\<exists>es. trace c' = trace e @ es)"
    unfolding r_def
    using dispatch_loop_keeps_failure [OF _ ef(1)] dispatch_loop_extends_trace by blast
  have after: "recv_loop w strtol args x net = Inr (Returned (finish False x))"
    if "exit_status x = EXIT_FAILURE" for x
    using that by (simp add: recv_loop_after_failure failure_not_success)
  have 4: "recv_loop w strtol args c0 (Received d # net)
             = (case r of
                  Inl err \<Rightarrow> Inl err
                | Inr (c', Continue) \<Rightarrow> Inr (Returned (finish False c'))
                | Inr (c', Retry) \<Rightarrow>
                    (case attempt w args c' of
                       Failed c'' \<Rightarrow> Inr (Failed c'')
                     | Returned c'' \<Rightarrow> Inr (Returned (finish False c''))))"
  proof (cases r)
    case (Inl err)
    with assms(5-7) 1 show ?thesis by (simp add: Let_def)
  next
    case (Inr cs)
    obtain c' s where cs: "cs = (c', s)" by (cases cs)
    with Inr 3 have f: "exit_status c' = EXIT_FAILURE" by blast
    show ?thesis
    proof (cases s)
      case Continue
      with assms(5-7) 1 Inr cs after [OF f] show ?thesis by (simp add: Let_def)
    next
      case Retry
      show ?thesis
      proof (cases "attempt w args c'")
        case (Failed c'')
        with assms(5-7) 1 Inr cs Retry show ?thesis by (simp add: Let_def)
      next
        case (Returned c'')
        with exit_status_attempt [of w args c'] f have "exit_status c'' = EXIT_FAILURE" by simp
        from after [OF this] assms(5-7) 1 Inr cs Retry Returned show ?thesis by (simp add: Let_def)
      qed
    qed
  qed
  have 5: "\<forall>out. recv_loop w strtol args c0 (Received d # net) = Inr out \<longrightarrow>
             exit_status (final out) = EXIT_FAILURE"
  proof (intro allI impI)
    fix out
    assume o: "recv_loop w strtol args c0 (Received d # net) = Inr out"
    show "exit_status (final out) = EXIT_FAILURE"
    proof (cases r)
      case (Inl err)
      with 4 o show ?thesis by simp
    next
      case (Inr cs)
      obtain c' s where cs: "cs = (c', s)" by (cases cs)
      with Inr 3 have f: "exit_status c' = EXIT_FAILURE" by blast
      show ?thesis
      proof (cases s)
        case Continue
        with 4 o Inr cs f show ?thesis by (auto simp: finish_def Let_def emit_def)
      next
        case Retry
        from exit_status_attempt [of w args c'] f
        have "exit_status (final (attempt w args c')) = EXIT_FAILURE" by simp
        with 4 o Inr cs Retry show ?thesis
          by (cases "attempt w args c'") (auto simp: finish_def Let_def emit_def)
      qed
    qed
  qed
  from b(1,2) 1 2 3 4 5 show ?thesis
    unfolding e_def [symmetric] r_def [symmetric] Let_def
    apply (intro exI [of _ buf])
    apply (fold e_def)
    apply (fold r_def)
    by blast
qed

theorem error_message_dispatch_witness:
  "report (recv_loop bare_world strtol_zero [] (startup ''emacsclient'' (replicate 65 NUL))
             [Received (''-print hello&_world'' @ [newline] @ ''-error bad&ninput'' @ [newline]),
              Received (''-print later'' @ [newline])])
   = ([Stdout ''hello world'', Stdout [newline],
       Stderr (''*ERROR*: bad'' @ [newline] @ ''input''), Stdout [newline]],
      EXIT_FAILURE)"
proof -
  let ?c0 = "startup ''emacsclient'' (replicate 65 NUL)"
  let ?d = "''-print hello&_world'' @ [newline] @ ''-error bad&ninput'' @ [newline]"
  let ?pre = "''-print hello world'' @ [NUL, NUL]"
  let ?net = "[Received (''-print later'' @ [newline])]"
  define c where "c = ?c0\<lparr>skiplf := False,
                             string_buf := ?pre @ ''-error bad&ninput'' @ newline # replicate 27 NUL,
                             trace := [Stdout ''hello world'']\<rparr>"
  have layout: "string_buf c = ?pre @ ''-error '' @ ''bad&ninput'' @ newline # replicate 27 NUL"
    by (simp add: c_def)
  have tx: "NUL \<notin> set ''bad&ninput''" "newline \<notin> set ''bad&ninput''"
    "decode ''bad&ninput'' = Some (''bad'' @ [newline] @ ''input'')"
    by (simp_all add: NUL_def newline_def amp_def unescape_def)
  have chunk: "exit_status ?c0 = EXIT_SUCCESS" "take (BUFSIZ ?c0) ?d \<noteq> []"
    by (simp_all add: startup_def BUFSIZ_def)
  have reach: "dispatch_loop strtol_zero (recv_store (take (BUFSIZ ?c0) ?d) ?c0) 0
                 = dispatch_loop strtol_zero c (length ?pre)"
    by (subst dispatch_loop.simps)
       (simp add: c_def startup_def BUFSIZ_def recv_store_def strchr_newline_def
          handle_message_def strprefix_def c_str_def unquote_loop.simps unescape_def
          set_skiplf_def emit_def NUL_def newline_def amp_def space_def Let_def replicate_update)
  from error_message_dispatch [OF layout tx chunk reach, of bare_world "[]" ?net]
  obtain buf where b:
    "let e = c\<lparr>skiplf := (if ''bad'' @ [newline] @ ''input'' = [] then skiplf c
                            else last (''bad'' @ [newline] @ ''input'') = newline),
                 exit_status := EXIT_FAILURE,
                 string_buf := buf,
                 trace := trace c @ (if skiplf c then [] else [Stdout [newline]])
                          @ [Stderr (''*ERROR*: '' @ ''bad'' @ [newline] @ ''input'')]\<rparr>;
         r = dispatch_loop strtol_zero e (length ?pre + 8 + length ''bad&ninput'')
     in (take 1 (replicate 27 NUL) = [NUL] \<longrightarrow> r = Inr (e, Continue))
      \<and> recv_loop bare_world strtol_zero [] ?c0 (Received ?d # ?net)
          = (case r of
               Inl err \<Rightarrow> Inl err
             | Inr (c', Continue) \<Rightarrow> Inr (Returned (finish False c'))
             | Inr (c', Retry) \<Rightarrow>
                 (case attempt bare_world [] c' of
                    Failed c'' \<Rightarrow> Inr (Failed c'')
                  | Returned c'' \<Rightarrow> Inr (Returned (finish False c''))))"
    unfolding Let_def by blast
  have "take 1 (replicate 27 NUL) = [NUL]" by (simp add: numeral_eq_Suc)
  with b show ?thesis
    by (simp add: Let_def report_def finish_def emit_def c_def startup_def newline_def)
qed

text \<open>
  Claim C2 as stated fails for a message that arrives after the chunk of the
  \<^verbatim>\<open>-error\<close> message: \<^verbatim>\<open>-print later\<close> is never received, whereas it is printed when it
  arrives in the same chunk as the error, or without the error before it.
\<close>

theorem error_later_chunk_counterexample:
  "report (recv_loop bare_world strtol_zero [] (startup ''emacsclient'' (replicate 65 NUL))
             [Received (''-error bad'' @ [newline]), Received (''-print later'' @ [newline])])
     = ([Stderr ''*ERROR*: bad'', Stdout [newline]], EXIT_FAILURE)
   \<and> report (recv_loop bare_world strtol_zero [] (startup ''emacsclient'' (replicate 65 NUL))
               [Received (''-error bad'' @ [newline] @ ''-print later'' @ [newline])])
     = ([Stderr ''*ERROR*: bad'', Stdout (newline # ''later''), Stdout [newline]], EXIT_FAILURE)
   \<and> report (recv_loop bare_world strtol_zero [] (startup ''emacsclient'' (replicate 65 NUL))
               [Received (''-print later'' @ [newline])])
     = ([Stdout ''later'', Stdout [newline]], EXIT_SUCCESS)"
  by (simp add: report_def startup_def emit_def
        c_str_def NUL_def space_def newline_def amp_def Let_def
        EXIT_SUCCESS_def BUFSIZ_def recv_store_def
        dispatch_loop.simps strchr_newline_def handle_message_def strprefix_def
        unquote_loop.simps unescape_def set_skiplf_def EXIT_FAILURE_def finish_def)

subsection \<open>The message -window-system-unsupported\<close>






text \<open>
  In the buffer that \<^verbatim>\<open>main\<close> dispatches a NUL follows the received bytes.
\<close>

lemma recv_store_buffer:
  assumes "length (pre @ rest) \<le> BUFSIZ c" and "0 < length (string_buf c)"
  shows "\<exists>rest'. string_buf (recv_store (pre @ rest) c) = pre @ rest' \<and> NUL \<in> set rest'"
proof -
  let ?d = "pre @ rest"
  let ?old = "drop (length ?d) (string_buf c)"
  from assms have l: "length ?d < length (string_buf c)" unfolding BUFSIZ_def by linarith
  then have o: "?old \<noteq> []" by simp
  have u: "(?d @ ?old)[length ?d := NUL] = ?d @ ?old[0 := NUL]"
    by (simp add: list_update_append)
  from o have n: "NUL \<in> set (?old[0 := NUL])"
    by (cases ?old) auto
  have "string_buf (recv_store ?d c) = pre @ (rest @ ?old[0 := NUL])"
    unfolding recv_store_def using u by simp
  moreover have "NUL \<in> set (rest @ ?old[0 := NUL])"
    using n by simp
  ultimately show ?thesis by blast
qed






























subsection \<open>Two runs\<close>

text \<open>
  Scenario C of the specification: the answer \<^verbatim>\<open>-print hello&_world\<close>,
  \<^verbatim>\<open>-error bad&ninput\<close> prints \<^verbatim>\<open>hello world\<close> on standard output and the error on
  standard error, and the exit status is failure.
\<close>

lemma scenario_C:
  "report (session bare_world strtol_zero [] ''/home/u/proj'' [''notes.txt'']
             (startup ''emacsclient'' (replicate 65 NUL))
             [Received (''-print hello&_world'' @ [newline] @ ''-error bad&ninput'' @ [newline])])
   = ([Stdout ''Waiting for Emacs...'', Stdout (newline # ''hello world''), Stdout [newline],
       Stderr (''*ERROR*: bad'' @ [newline] @ ''input''), Stdout [newline]],
      EXIT_FAILURE)"
  by (simp add: report_def session_def startup_def attempt_def send_dir_def emit_def
        env_directives_def
        frame_directives_def tty_directives_def send_arguments_def wait_notice_def find_tty_def
        bare_world_def arg_directive_def position_arg_def quoted_def quote_copy_def no_env_def
        c_str_def NUL_def space_def newline_def amp_def Let_def
        EXIT_SUCCESS_def BUFSIZ_def recv_store_def
        dispatch_loop.simps strchr_newline_def handle_message_def strprefix_def
        unquote_loop.simps unescape_def set_skiplf_def EXIT_FAILURE_def finish_def
        file_name_absolute_p_def)

text \<open>
  A text that ends in an unescaped ampersand, in a message that is not the last of its
  chunk: \<^verbatim>\<open>unquote_argument\<close> runs over the terminator into the next message and moves
  it one byte down, so that the loop finds \<^verbatim>\<open>print bar\<close> where \<^verbatim>\<open>-print bar\<close> was.
\<close>

lemma dangling_amp_in_chunk:
  "report (session bare_world strtol_zero [] ''/home/u/proj'' [''notes.txt'']
             (startup ''emacsclient'' (replicate 65 NUL))
             [Received (''-error bad&'' @ [newline] @ ''-print bar'' @ [newline])])
   = ([Stdout ''Waiting for Emacs...'', Stdout [newline], Stderr ''*ERROR*: bad'',
       Stdout (newline # ''*ERROR*: Unknown message: print bar'' @ [newline])],
      EXIT_FAILURE)"
  by (simp add: report_def session_def startup_def attempt_def send_dir_def emit_def
        env_directives_def
        frame_directives_def tty_directives_def send_arguments_def wait_notice_def find_tty_def
        bare_world_def arg_directive_def position_arg_def quoted_def quote_copy_def no_env_def
        c_str_def NUL_def space_def newline_def amp_def Let_def
        EXIT_SUCCESS_def BUFSIZ_def recv_store_def
        dispatch_loop.simps strchr_newline_def handle_message_def strprefix_def
        unquote_loop.simps unescape_def set_skiplf_def EXIT_FAILURE_def finish_def
        file_name_absolute_p_def)

end
